theory Spec2Isabelle
  imports Complex_Main "HOL-Library.Char_ord" "HOL-Library.List_Lexorder" "HOL-Library.Multiset"
begin

section \<open>Data model\<close>

text \<open>
  The script \<^verbatim>\<open>code.py\<close> loads three CSV files into pandas tables, joins them, fills
  missing cells forward, adds derived columns and aggregates.  A table is a list of rows in
  table order; a row is a record with one field per column the script reads; a cell is an
  \<open>option\<close>, \<open>None\<close> being the missing value (\<^verbatim>\<open>NaN\<close>/\<^verbatim>\<open>NaT\<close>).  Floating-point
  columns are modelled by exact rationals, and a floating-point result \<^verbatim>\<open>NaN\<close> is \<open>None\<close>.
  A line of the script that raises ends the run; the lines that can raise while the table is
  built are part of \<open>script_df\<close> below.
\<close>

text \<open>
  \<^verbatim>\<open>read_csv\<close> types each column by what it holds: a column whose cells are all numbers (or
  missing) is numeric, any other column is text.  So a cell of an identifier or category
  column is a number or a text, and all cells of one loaded column are of the same kind.
  Numbers compare by value and texts by code point; the order puts numbers before texts,
  which no loaded column mixes.
\<close>

datatype cell = Num rat | Str string

instantiation cell :: linorder
begin

definition less_eq_cell :: "cell \<Rightarrow> cell \<Rightarrow> bool" where
  "less_eq_cell a b =
     (case a of
        Num x \<Rightarrow> (case b of Num y \<Rightarrow> x \<le> y | Str t \<Rightarrow> True)
      | Str s \<Rightarrow> (case b of Num y \<Rightarrow> False | Str t \<Rightarrow> s \<le> t))"

definition less_cell :: "cell \<Rightarrow> cell \<Rightarrow> bool" where
  "less_cell a b = (a \<le> b \<and> \<not> b \<le> a)"

instance
proof
  fix a b c :: cell
  show "a < b \<longleftrightarrow> a \<le> b \<and> \<not> b \<le> a"
    by (simp add: less_cell_def)
  show "a \<le> a"
    by (simp add: less_eq_cell_def split: cell.splits)
  show "a \<le> b \<Longrightarrow> b \<le> c \<Longrightarrow> a \<le> c"
    by (cases a; cases b; cases c) (auto simp: less_eq_cell_def)
  show "a \<le> b \<Longrightarrow> b \<le> a \<Longrightarrow> a = b"
    by (cases a; cases b) (auto simp: less_eq_cell_def)
  show "a \<le> b \<or> b \<le> a"
    by (cases a; cases b) (auto simp: less_eq_cell_def)
qed

end

record date =
  year :: int
  month :: int
  day :: int

text \<open>
  Number of days from 1970-01-01 to a calendar date of the proleptic Gregorian calendar, the
  day count behind the subtraction of two timestamps followed by \<^verbatim>\<open>.dt.days\<close>.
\<close>

definition days_from_civil :: "date \<Rightarrow> int" where
  "days_from_civil dt =
     (let y = (if month dt \<le> 2 then year dt - 1 else year dt);
          era = y div 400;
          yoe = y - era * 400;
          mp = (if month dt > 2 then month dt - 3 else month dt + 9);
          doy = (153 * mp + 2) div 5 + day dt - 1;
          doe = yoe * 365 + yoe div 4 - yoe div 100 + doy
      in era * 146097 + doe - 719468)"

text \<open>
  The Gregorian calendar: leap years, the lengths of the months, the dates that exist, and
  the number of days in the years up to a year (up to a constant).
\<close>

definition is_leap :: "int \<Rightarrow> bool" where
  "is_leap y \<longleftrightarrow> y mod 4 = 0 \<and> (y mod 100 \<noteq> 0 \<or> y mod 400 = 0)"

definition days_in_month :: "int \<Rightarrow> int \<Rightarrow> int" where
  "days_in_month y m =
     (if m = 2 then (if is_leap y then 29 else 28)
      else if m = 4 \<or> m = 6 \<or> m = 9 \<or> m = 11 then 30 else 31)"

definition valid_date :: "date \<Rightarrow> bool" where
  "valid_date dt \<longleftrightarrow>
     1 \<le> month dt \<and> month dt \<le> 12 \<and> 1 \<le> day dt \<and> day dt \<le> days_in_month (year dt) (month dt)"

definition gregorian_days :: "int \<Rightarrow> int" where
  "gregorian_days y = 365 * y + y div 4 - y div 100 + y div 400"

text \<open>
  A timestamp counts nanoseconds from 1970-01-01 in 64 bits, and so does the difference of
  two timestamps: midnight of a day fits from day -106751 (1677-09-22) to day 106751
  (2262-04-11), and a difference fits up to 106751 days either way.  \<^verbatim>\<open>parse_dates\<close> leaves
  a column as text when one of its dates does not exist or does not fit.
\<close>

definition max_days :: int where
  "max_days = 106751"

definition in_bounds :: "date \<Rightarrow> bool" where
  "in_bounds dt \<longleftrightarrow> - max_days \<le> days_from_civil dt \<and> days_from_civil dt \<le> max_days"

definition timestamp_ok :: "date \<Rightarrow> bool" where
  "timestamp_ok dt \<longleftrightarrow> valid_date dt \<and> in_bounds dt"

definition column_ok :: "date option list \<Rightarrow> bool" where
  "column_ok col \<longleftrightarrow> (\<forall>dt \<in> set (List.map_filter id col). timestamp_ok dt)"

text \<open>\<^verbatim>\<open>patients = pd.read_csv("patient_data.csv", parse_dates=[...])\<close>\<close>

record patient =
  Patient_ID :: "cell option"
  DOB :: "date option"
  Admission_Date :: "date option"
  Discharge_Date :: "date option"
  Gender :: "cell option"
  Condition :: "cell option"
  Hospital_ID :: "cell option"
  Readmitted :: "int option"
  Outcome :: "cell option"

text \<open>\<^verbatim>\<open>hospitals = pd.read_csv("hospital_data.csv")\<close>\<close>

record hospital =
  hosp_Hospital_ID :: "cell option"
  hosp_Department :: "cell option"

text \<open>\<^verbatim>\<open>treatments = pd.read_csv("treatment_data.csv")\<close>\<close>

record treatment =
  trt_Condition :: "cell option"
  trt_Treatment_Type :: "cell option"
  trt_Effectiveness_Rate :: "rat option"

text \<open>The table after the first merge, after the second merge, and with the derived columns.\<close>

record with_hospital = patient +
  Department :: "cell option"

record merged = with_hospital +
  Treatment_Type :: "cell option"
  Effectiveness_Rate :: "rat option"

record enriched = merged +
  Age :: "int option"
  Age_Group :: "string option"
  Admission_Month :: "int option"
  Discharge_Month :: "int option"
  Length_of_Stay :: "int option"

text \<open>The exceptions that end a run of the script.\<close>

datatype py_error =
  IndexError | AttributeError | TypeError | ValueError | OutOfBoundsDatetime | OverflowError

section \<open>Step 1: merge\<close>

text \<open>
  The rows of \<^verbatim>\<open>left.merge(right, on=key, how="left")\<close>: every left row, in left order,
  once per right row with an equal key (in right order), or once with the right columns
  missing when no right row has that key.  pandas matches a missing key with a missing key,
  which equality on \<open>option\<close> does too.
\<close>

definition merge_left ::
  "('l \<Rightarrow> 'k) \<Rightarrow> ('r \<Rightarrow> 'k) \<Rightarrow> ('l \<Rightarrow> 'r option \<Rightarrow> 'o) \<Rightarrow> 'l list \<Rightarrow> 'r list \<Rightarrow> 'o list" where
  "merge_left lkey rkey combine ls rs =
     concat (map (\<lambda>l. let ms = filter (\<lambda>r. rkey r = lkey l) rs
                       in if ms = [] then [combine l None] else map (\<lambda>r. combine l (Some r)) ms) ls)"

definition add_hospital :: "patient \<Rightarrow> hospital option \<Rightarrow> with_hospital" where
  "add_hospital p ho =
     \<lparr>Patient_ID = Patient_ID p, DOB = DOB p, Admission_Date = Admission_Date p,
      Discharge_Date = Discharge_Date p, Gender = Gender p, Condition = Condition p,
      Hospital_ID = Hospital_ID p, Readmitted = Readmitted p, Outcome = Outcome p,
      Department = (case ho of None \<Rightarrow> None | Some h \<Rightarrow> hosp_Department h)\<rparr>"

definition add_treatment :: "with_hospital \<Rightarrow> treatment option \<Rightarrow> merged" where
  "add_treatment w tr =
     \<lparr>Patient_ID = Patient_ID w, DOB = DOB w, Admission_Date = Admission_Date w,
      Discharge_Date = Discharge_Date w, Gender = Gender w, Condition = Condition w,
      Hospital_ID = Hospital_ID w, Readmitted = Readmitted w, Outcome = Outcome w,
      Department = Department w,
      Treatment_Type = (case tr of None \<Rightarrow> None | Some t \<Rightarrow> trt_Treatment_Type t),
      Effectiveness_Rate = (case tr of None \<Rightarrow> None | Some t \<Rightarrow> trt_Effectiveness_Rate t)\<rparr>"

text \<open>
  Before it joins, \<^verbatim>\<open>merge\<close> compares the types of the two key columns, unless just one of
  the tables has no rows: a text column against a numeric column (a column with no text in
  it, also one whose cells are all missing) raises \<^verbatim>\<open>ValueError\<close>.
\<close>

definition has_text :: "cell option list \<Rightarrow> bool" where
  "has_text col \<longleftrightarrow> (\<exists>c \<in> set col. case c of Some (Str s) \<Rightarrow> True | _ \<Rightarrow> False)"

definition keys_mismatch :: "cell option list \<Rightarrow> cell option list \<Rightarrow> bool" where
  "keys_mismatch lcol rcol \<longleftrightarrow> lcol \<noteq> [] \<and> rcol \<noteq> [] \<and> has_text lcol \<noteq> has_text rcol"

definition df_merge ::
  "('l \<Rightarrow> cell option) \<Rightarrow> ('r \<Rightarrow> cell option) \<Rightarrow> ('l \<Rightarrow> 'r option \<Rightarrow> 'o) \<Rightarrow>
     'l list \<Rightarrow> 'r list \<Rightarrow> py_error + 'o list" where
  "df_merge lkey rkey combine ls rs =
     (if keys_mismatch (map lkey ls) (map rkey rs) then Inl ValueError
      else Inr (merge_left lkey rkey combine ls rs))"

text \<open>
  \<^verbatim>\<open>df = patients.merge(hospitals, on="Hospital_ID", how="left")
          .merge(treatments, on="Condition", how="left")\<close>, as line 14 runs it, and the
  table it gives when neither merge raises.
\<close>

definition merge_script ::
  "patient list \<Rightarrow> hospital list \<Rightarrow> treatment list \<Rightarrow> py_error + merged list" where
  "merge_script patients hospitals treatments =
     (case df_merge Hospital_ID hosp_Hospital_ID add_hospital patients hospitals of
        Inl e \<Rightarrow> Inl e
      | Inr w \<Rightarrow> df_merge Condition trt_Condition add_treatment w treatments)"

definition merge_tables :: "patient list \<Rightarrow> hospital list \<Rightarrow> treatment list \<Rightarrow> merged list" where
  "merge_tables patients hospitals treatments =
     merge_left Condition trt_Condition add_treatment
       (merge_left Hospital_ID hosp_Hospital_ID add_hospital patients hospitals) treatments"

section \<open>Step 2: forward fill\<close>

text \<open>
  \<^verbatim>\<open>df.fillna(method='ffill', inplace=True)\<close>: going down the table, each column remembers
  its last value that was not missing, and a missing cell takes it.
\<close>

definition fill_cell :: "'a option \<Rightarrow> 'a option \<Rightarrow> 'a option" where
  "fill_cell prev c = (case c of None \<Rightarrow> prev | Some v \<Rightarrow> Some v)"

definition fill_row :: "merged \<Rightarrow> merged \<Rightarrow> merged" where
  "fill_row prev r =
     \<lparr>Patient_ID = fill_cell (Patient_ID prev) (Patient_ID r),
      DOB = fill_cell (DOB prev) (DOB r),
      Admission_Date = fill_cell (Admission_Date prev) (Admission_Date r),
      Discharge_Date = fill_cell (Discharge_Date prev) (Discharge_Date r),
      Gender = fill_cell (Gender prev) (Gender r),
      Condition = fill_cell (Condition prev) (Condition r),
      Hospital_ID = fill_cell (Hospital_ID prev) (Hospital_ID r),
      Readmitted = fill_cell (Readmitted prev) (Readmitted r),
      Outcome = fill_cell (Outcome prev) (Outcome r),
      Department = fill_cell (Department prev) (Department r),
      Treatment_Type = fill_cell (Treatment_Type prev) (Treatment_Type r),
      Effectiveness_Rate = fill_cell (Effectiveness_Rate prev) (Effectiveness_Rate r)\<rparr>"

fun ffill_from :: "merged \<Rightarrow> merged list \<Rightarrow> merged list" where
  "ffill_from prev [] = []"
| "ffill_from prev (r # rs) = fill_row prev r # ffill_from (fill_row prev r) rs"

definition all_missing :: merged where
  "all_missing =
     \<lparr>Patient_ID = None, DOB = None, Admission_Date = None, Discharge_Date = None,
      Gender = None, Condition = None, Hospital_ID = None, Readmitted = None, Outcome = None,
      Department = None, Treatment_Type = None, Effectiveness_Rate = None\<rparr>"

definition fillna_ffill :: "merged list \<Rightarrow> merged list" where
  "fillna_ffill rows = ffill_from all_missing rows"

section \<open>Steps 3 to 7: derived columns\<close>

text \<open>\<^verbatim>\<open>today = pd.to_datetime("2024-01-01")\<close>\<close>

definition today :: date where
  "today = \<lparr>year = 2024, month = 1, day = 1\<rparr>"

text \<open>\<^verbatim>\<open>(today - df["DOB"]).dt.days // 365\<close>; \<open>div\<close> on \<open>int\<close> rounds down, as \<^verbatim>\<open>//\<close> does.\<close>

definition age_of :: "date option \<Rightarrow> int option" where
  "age_of dob = map_option (\<lambda>d. (days_from_civil today - days_from_civil d) div 365) dob"

text \<open>
  \<^verbatim>\<open>pd.cut(x, bins=bins, labels=labels)\<close> with the default \<^verbatim>\<open>right=True\<close>: the label of
  the first interval \<open>(lo, hi]\<close> of consecutive bin edges that holds the value, and
  missing when none does.
\<close>

fun cut :: "int list \<Rightarrow> string list \<Rightarrow> int \<Rightarrow> string option" where
  "cut (lo # hi # edges) (l # ls) x =
     (if lo < x \<and> x \<le> hi then Some l else cut (hi # edges) ls x)"
| "cut _ _ _ = None"

definition bins :: "int list" where
  "bins = [0, 18, 35, 50, 65, 100]"

definition labels :: "string list" where
  "labels = [''Child'', ''Young Adult'', ''Adult'', ''Middle Aged'', ''Senior'']"

definition age_group_of :: "int option \<Rightarrow> string option" where
  "age_group_of a = (case a of None \<Rightarrow> None | Some x \<Rightarrow> cut bins labels x)"

text \<open>\<^verbatim>\<open>(df["Discharge_Date"] - df["Admission_Date"]).dt.days\<close>\<close>

definition length_of_stay :: "date option \<Rightarrow> date option \<Rightarrow> int option" where
  "length_of_stay dis adm =
     (case (dis, adm) of
        (Some d, Some a) \<Rightarrow> Some (days_from_civil d - days_from_civil a)
      | _ \<Rightarrow> None)"

definition enrich_row :: "merged \<Rightarrow> enriched" where
  "enrich_row r =
     \<lparr>Patient_ID = Patient_ID r, DOB = DOB r, Admission_Date = Admission_Date r,
      Discharge_Date = Discharge_Date r, Gender = Gender r, Condition = Condition r,
      Hospital_ID = Hospital_ID r, Readmitted = Readmitted r, Outcome = Outcome r,
      Department = Department r, Treatment_Type = Treatment_Type r,
      Effectiveness_Rate = Effectiveness_Rate r,
      Age = age_of (DOB r),
      Age_Group = age_group_of (age_of (DOB r)),
      Admission_Month = map_option month (Admission_Date r),
      Discharge_Month = map_option month (Discharge_Date r),
      Length_of_Stay = length_of_stay (Discharge_Date r) (Admission_Date r)\<rparr>"

text \<open>
  The table \<^verbatim>\<open>df\<close> as the aggregates of steps 6 to 17 see it, when no line before them
  raises.
\<close>

definition df_of :: "patient list \<Rightarrow> hospital list \<Rightarrow> treatment list \<Rightarrow> enriched list" where
  "df_of patients hospitals treatments =
     map enrich_row (fillna_ffill (merge_tables patients hospitals treatments))"

text \<open>
  The lines that raise while the table is built.

  Line 18, \<^verbatim>\<open>pd.to_datetime(df['Discharge_Date'])\<close>: a discharge column left as text is
  parsed again, and its first date that does not exist or does not fit raises.

  Line 22, \<^verbatim>\<open>(today - df["DOB"]).dt.days\<close>: a table without rows has no typed columns and
  \<^verbatim>\<open>.dt\<close> raises \<^verbatim>\<open>AttributeError\<close>; a birth column left as text cannot be subtracted; a
  birth date more than \<open>max_days\<close> days before the reference date overflows.

  Line 32, \<^verbatim>\<open>df["Admission_Date"].dt.month\<close>: an admission column left as text has no
  \<^verbatim>\<open>.dt\<close>.

  Line 39, \<^verbatim>\<open>df["Discharge_Date"] - df["Admission_Date"]\<close>: a difference of more than
  \<open>max_days\<close> days overflows.
\<close>

definition raises_to_datetime :: "merged list \<Rightarrow> py_error option" where
  "raises_to_datetime df =
     (case List.find (\<lambda>dt. \<not> timestamp_ok dt) (List.map_filter Discharge_Date df) of
        None \<Rightarrow> None
      | Some dt \<Rightarrow> Some (if valid_date dt then OutOfBoundsDatetime else ValueError))"

definition raises_age :: "merged list \<Rightarrow> py_error option" where
  "raises_age df =
     (if df = [] then Some AttributeError
      else if \<not> column_ok (map DOB df) then Some TypeError
      else if \<exists>dt \<in> set (List.map_filter DOB df).
                max_days < days_from_civil today - days_from_civil dt
      then Some OverflowError
      else None)"

definition raises_month :: "merged list \<Rightarrow> py_error option" where
  "raises_month df = (if \<not> column_ok (map Admission_Date df) then Some AttributeError else None)"

definition stay_overflows :: "merged \<Rightarrow> bool" where
  "stay_overflows r =
     (case length_of_stay (Discharge_Date r) (Admission_Date r) of
        None \<Rightarrow> False
      | Some n \<Rightarrow> n < - max_days \<or> max_days < n)"

definition raises_length_of_stay :: "merged list \<Rightarrow> py_error option" where
  "raises_length_of_stay df = (if \<exists>r \<in> set df. stay_overflows r then Some OverflowError else None)"

text \<open>Lines 14 to 39 in order: the table \<^verbatim>\<open>df\<close>, or the first exception.\<close>

definition script_df ::
  "patient list \<Rightarrow> hospital list \<Rightarrow> treatment list \<Rightarrow> py_error + enriched list" where
  "script_df patients hospitals treatments =
     (case merge_script patients hospitals treatments of
        Inl e \<Rightarrow> Inl e
      | Inr m \<Rightarrow>
          (let df = fillna_ffill m in
           case raises_to_datetime df of Some e \<Rightarrow> Inl e | None \<Rightarrow>
           case raises_age df of Some e \<Rightarrow> Inl e | None \<Rightarrow>
           case raises_month df of Some e \<Rightarrow> Inl e | None \<Rightarrow>
           case raises_length_of_stay df of Some e \<Rightarrow> Inl e | None \<Rightarrow>
           Inr (map enrich_row df)))"

section \<open>Steps 6 to 10 and 17: aggregates\<close>

text \<open>
  \<^verbatim>\<open>df.groupby(key)\<close> with the defaults \<^verbatim>\<open>sort=True, dropna=True\<close>: one group per value of
  the key column that is not missing, in ascending order of the key; a group holds its rows
  in table order.
\<close>

definition groupby :: "('r \<Rightarrow> 'k::linorder option) \<Rightarrow> 'r list \<Rightarrow> ('k \<times> 'r list) list" where
  "groupby key rows =
     map (\<lambda>k. (k, filter (\<lambda>r. key r = Some k) rows))
         (sort (remdups (List.map_filter key rows)))"

text \<open>\<^verbatim>\<open>Series.count()\<close>: the number of cells that are not missing.\<close>

definition count_cells :: "'a option list \<Rightarrow> nat" where
  "count_cells xs = length (List.map_filter id xs)"

text \<open>
  \<^verbatim>\<open>Series.mean()\<close> with the default \<^verbatim>\<open>skipna=True\<close>: the mean of the cells that are not
  missing, and \<^verbatim>\<open>NaN\<close> when there is none.
\<close>

definition mean :: "rat option list \<Rightarrow> rat option" where
  "mean xs =
     (let vs = List.map_filter id xs
      in if vs = [] then None else Some (sum_list vs / of_nat (length vs)))"

definition int_cells :: "int option list \<Rightarrow> rat option list" where
  "int_cells xs = map (map_option of_int) xs"

definition group_count ::
  "('r \<Rightarrow> 'k::linorder option) \<Rightarrow> ('r \<Rightarrow> 'a option) \<Rightarrow> 'r list \<Rightarrow> ('k \<times> nat) list" where
  "group_count key col rows = map (\<lambda>(k, g). (k, count_cells (map col g))) (groupby key rows)"

definition group_mean ::
  "('r \<Rightarrow> 'k::linorder option) \<Rightarrow> ('r \<Rightarrow> rat option) \<Rightarrow> 'r list \<Rightarrow> ('k \<times> rat option) list" where
  "group_mean key col rows = map (\<lambda>(k, g). (k, mean (map col g))) (groupby key rows)"

definition admission_trend :: "enriched list \<Rightarrow> (int \<times> nat) list" where
  "admission_trend df = group_count Admission_Month Patient_ID df"

definition discharge_trend :: "enriched list \<Rightarrow> (int \<times> nat) list" where
  "discharge_trend df = group_count Discharge_Month Patient_ID df"

definition avg_stay_condition :: "enriched list \<Rightarrow> (cell \<times> rat option) list" where
  "avg_stay_condition df = group_mean Condition (\<lambda>r. map_option of_int (Length_of_Stay r)) df"

definition avg_stay_department :: "enriched list \<Rightarrow> (cell \<times> rat option) list" where
  "avg_stay_department df = group_mean Department (\<lambda>r. map_option of_int (Length_of_Stay r)) df"

definition readmission_rate :: "enriched list \<Rightarrow> rat option" where
  "readmission_rate df = mean (int_cells (map Readmitted df))"

text \<open>Line 45 within the run: reached only when the table was built.\<close>

definition script_readmission_rate ::
  "patient list \<Rightarrow> hospital list \<Rightarrow> treatment list \<Rightarrow> py_error + rat option" where
  "script_readmission_rate patients hospitals treatments =
     (case script_df patients hospitals treatments of
        Inl e \<Rightarrow> Inl e
      | Inr df \<Rightarrow> Inr (readmission_rate df))"

definition readmission_by_condition :: "enriched list \<Rightarrow> (cell \<times> rat option) list" where
  "readmission_by_condition df = group_mean Condition (\<lambda>r. map_option of_int (Readmitted r)) df"

definition outcome_segment :: "enriched list \<Rightarrow> (cell \<times> nat) list" where
  "outcome_segment df = group_count Outcome Patient_ID df"

definition effectiveness_summary :: "enriched list \<Rightarrow> (cell \<times> rat option) list" where
  "effectiveness_summary df = group_mean Treatment_Type Effectiveness_Rate df"

text \<open>
  \<^verbatim>\<open>Series.value_counts()\<close>: the values that are not missing with their counts, first in
  order of first appearance, then sorted by count, descending.  pandas sorts descending by
  reversing, sorting ascending and reversing again; the ascending sort is taken to be stable
  here (as insertion sort is), so that equal counts stay in order of first appearance.
\<close>

definition first_seen :: "'a list \<Rightarrow> 'a list" where
  "first_seen vs = rev (remdups (rev vs))"

definition value_counts :: "'a option list \<Rightarrow> ('a \<times> nat) list" where
  "value_counts xs =
     (let vs = List.map_filter id xs;
          kc = map (\<lambda>k. (k, count_list vs k)) (first_seen vs)
      in rev (sort_key snd (rev kc)))"

text \<open>\<^verbatim>\<open>lambda x: x.value_counts().index[0]\<close>, which raises on an empty index.\<close>

definition top_value :: "'a option list \<Rightarrow> py_error + 'a" where
  "top_value xs = (case value_counts xs of [] \<Rightarrow> Inl IndexError | (k, c) # _ \<Rightarrow> Inr k)"

text \<open>Running the aggregation function over the groups in order; the first raise ends it.\<close>

fun agg :: "('g \<Rightarrow> py_error + 'v) \<Rightarrow> ('k \<times> 'g) list \<Rightarrow> py_error + ('k \<times> 'v) list" where
  "agg f [] = Inr []"
| "agg f ((k, g) # gs) =
     (case f g of
        Inl e \<Rightarrow> Inl e
      | Inr v \<Rightarrow> (case agg f gs of Inl e \<Rightarrow> Inl e | Inr kvs \<Rightarrow> Inr ((k, v) # kvs)))"

text \<open>
  \<^verbatim>\<open>df[df["Readmitted"] == 1].groupby("Condition")["Treatment_Type"]
       .agg(lambda x: x.value_counts().index[0])\<close>
\<close>

definition interventions :: "enriched list \<Rightarrow> py_error + (cell \<times> cell) list" where
  "interventions df =
     agg (\<lambda>g. top_value (map Treatment_Type g))
         (groupby Condition (filter (\<lambda>r. Readmitted r = Some 1) df))"

text \<open>\<^verbatim>\<open>high_risk_patients = df[df["Outcome"] == "Deteriorated"]\<close>\<close>

definition high_risk_patients :: "enriched list \<Rightarrow> enriched list" where
  "high_risk_patients df = filter (\<lambda>r. Outcome r = Some (Str ''Deteriorated'')) df"

section \<open>The specification's wording, and example tables\<close>

text \<open>
  The age brackets as the specification words them: \<open>(0,18]\<close> Child, \<open>(18,35]\<close> Young
  Adult, \<open>(35,50]\<close> Adult, \<open>(50,65]\<close> Middle Aged, \<open>(65,100]\<close> Senior, and unclassified
  outside \<open>(0,100]\<close>.
\<close>

definition spec_age_bucket :: "int \<Rightarrow> string option" where
  "spec_age_bucket a =
     (if 0 < a \<and> a \<le> 18 then Some ''Child''
      else if 18 < a \<and> a \<le> 35 then Some ''Young Adult''
      else if 35 < a \<and> a \<le> 50 then Some ''Adult''
      else if 50 < a \<and> a \<le> 65 then Some ''Middle Aged''
      else if 65 < a \<and> a \<le> 100 then Some ''Senior''
      else None)"

text \<open>The end-to-end example of the specification; it gives no gender.\<close>

definition example_patient :: patient where
  "example_patient =
     \<lparr>Patient_ID = Some (Str ''P1''), DOB = Some \<lparr>year = 2000, month = 1, day = 1\<rparr>,
      Admission_Date = Some \<lparr>year = 2024, month = 1, day = 5\<rparr>,
      Discharge_Date = Some \<lparr>year = 2024, month = 1, day = 10\<rparr>,
      Gender = None, Condition = Some (Str ''Flu''), Hospital_ID = Some (Str ''H1''), Readmitted = Some 1,
      Outcome = Some (Str ''Improved'')\<rparr>"

definition example_hospital :: hospital where
  "example_hospital = \<lparr>hosp_Hospital_ID = Some (Str ''H1''), hosp_Department = Some (Str ''General'')\<rparr>"

definition example_treatment :: treatment where
  "example_treatment =
     \<lparr>trt_Condition = Some (Str ''Flu''), trt_Treatment_Type = Some (Str ''Antiviral''),
      trt_Effectiveness_Rate = Some (8 / 10)\<rparr>"

definition example_df :: "enriched list" where
  "example_df = df_of [example_patient] [example_hospital] [example_treatment]"

text \<open>A patient with the given dates of birth, admission and discharge and nothing else.\<close>

definition patient_with :: "date \<Rightarrow> date \<Rightarrow> date \<Rightarrow> patient" where
  "patient_with dob adm dis =
     \<lparr>Patient_ID = None, DOB = Some dob, Admission_Date = Some adm, Discharge_Date = Some dis,
      Gender = None, Condition = None, Hospital_ID = None, Readmitted = None, Outcome = None\<rparr>"

definition ymd :: "int \<Rightarrow> int \<Rightarrow> int \<Rightarrow> date" where
  "ymd y m d = \<lparr>year = y, month = m, day = d\<rparr>"

text \<open>
  Forward fill as the specification words it: a missing cell takes the value of the nearest
  preceding cell of its column that is not missing, and stays missing when there is none;
  a cell that is not missing stays as it is.
\<close>

definition nearest_preceding :: "'a option list \<Rightarrow> nat \<Rightarrow> 'a option" where
  "nearest_preceding xs i =
     (case filter (\<lambda>j. xs ! j \<noteq> None) (rev [0..<i]) of [] \<Rightarrow> None | j # _ \<Rightarrow> xs ! j)"

definition forward_filled :: "'a option list \<Rightarrow> 'a option list" where
  "forward_filled xs =
     map (\<lambda>i. case xs ! i of None \<Rightarrow> nearest_preceding xs i | Some v \<Rightarrow> Some v) [0..<length xs]"

text \<open>What \<open>ffill_from\<close> does to one column.\<close>

fun ffill_col :: "'a option \<Rightarrow> 'a option list \<Rightarrow> 'a option list" where
  "ffill_col prev [] = []"
| "ffill_col prev (c # cs) = fill_cell prev c # ffill_col (fill_cell prev c) cs"

text \<open>
  A second patient for the examples: condition Asthma, not readmitted, admitted in February,
  in a hospital H2 that the hospital table does not list; and a row of the merged table with
  a given condition and treatment type and nothing else.
\<close>

definition other_patient :: patient where
  "other_patient =
     \<lparr>Patient_ID = Some (Str ''P2''), DOB = Some \<lparr>year = 1960, month = 7, day = 15\<rparr>,
      Admission_Date = Some \<lparr>year = 2024, month = 2, day = 27\<rparr>,
      Discharge_Date = Some \<lparr>year = 2024, month = 3, day = 2\<rparr>,
      Gender = None, Condition = Some (Str ''Asthma''), Hospital_ID = Some (Str ''H2''), Readmitted = Some 0,
      Outcome = Some (Str ''Deteriorated'')\<rparr>"

definition two_patients_df :: "enriched list" where
  "two_patients_df = df_of [example_patient, other_patient] [example_hospital] [example_treatment]"

definition merged_with :: "cell option \<Rightarrow> cell option \<Rightarrow> merged" where
  "merged_with c t =
     \<lparr>Patient_ID = None, DOB = None, Admission_Date = None, Discharge_Date = None,
      Gender = None, Condition = c, Hospital_ID = None, Readmitted = None, Outcome = None,
      Department = None, Treatment_Type = t, Effectiveness_Rate = None\<rparr>"

text \<open>The patient columns of a row, to tell which patient row a row of the table comes from.\<close>

definition patient_columns :: "'a patient_scheme \<Rightarrow> patient" where
  "patient_columns r =
     \<lparr>Patient_ID = Patient_ID r, DOB = DOB r, Admission_Date = Admission_Date r,
      Discharge_Date = Discharge_Date r, Gender = Gender r, Condition = Condition r,
      Hospital_ID = Hospital_ID r, Readmitted = Readmitted r, Outcome = Outcome r\<rparr>"

text \<open>A second department of hospital H1, and a second treatment for Flu.\<close>

definition example_hospital_2 :: hospital where
  "example_hospital_2 = \<lparr>hosp_Hospital_ID = Some (Str ''H1''), hosp_Department = Some (Str ''Cardiology'')\<rparr>"

definition example_treatment_2 :: treatment where
  "example_treatment_2 =
     \<lparr>trt_Condition = Some (Str ''Flu''), trt_Treatment_Type = Some (Str ''Rest''),
      trt_Effectiveness_Rate = Some (5 / 10)\<rparr>"

text \<open>
  The most frequent value as the specification words it, ties going to the value
  encountered first: the first value of the list that no value of the list outnumbers.
\<close>

definition most_frequent_first :: "'a list \<Rightarrow> 'a option" where
  "most_frequent_first vs =
     (case filter (\<lambda>v. \<forall>u \<in> set vs. count_list vs u \<le> count_list vs v) vs of
        [] \<Rightarrow> None
      | v # _ \<Rightarrow> Some v)"

text \<open>
  The conditions of the rows with \<^verbatim>\<open>Readmitted == 1\<close>, and the treatment types that are not
  missing among the rows with \<^verbatim>\<open>Readmitted == 1\<close> and a given condition, in table order.
\<close>

definition readmitted_conditions :: "enriched list \<Rightarrow> cell list" where
  "readmitted_conditions df = List.map_filter Condition (filter (\<lambda>r. Readmitted r = Some 1) df)"

definition readmitted_treatments :: "enriched list \<Rightarrow> cell \<Rightarrow> cell list" where
  "readmitted_treatments df c =
     List.map_filter Treatment_Type
       (filter (\<lambda>r. Readmitted r = Some 1 \<and> Condition r = Some c) df)"



text \<open>
  Patients whose readmitted cell is missing, and tables whose identifiers are numbers.
\<close>

definition unrecorded_patient :: patient where
  "unrecorded_patient =
     \<lparr>Patient_ID = Some (Str ''P0''), DOB = Some \<lparr>year = 1990, month = 5, day = 20\<rparr>,
      Admission_Date = Some \<lparr>year = 2023, month = 12, day = 30\<rparr>,
      Discharge_Date = Some \<lparr>year = 2024, month = 3, day = 1\<rparr>,
      Gender = None, Condition = Some (Str ''Flu''), Hospital_ID = Some (Str ''H1''),
      Readmitted = None, Outcome = Some (Str ''Improved'')\<rparr>"

definition coded_patient :: "rat \<Rightarrow> patient" where
  "coded_patient c =
     \<lparr>Patient_ID = Some (Num c), DOB = Some \<lparr>year = 1990, month = 5, day = 20\<rparr>,
      Admission_Date = Some \<lparr>year = 2024, month = 1, day = 10\<rparr>,
      Discharge_Date = Some \<lparr>year = 2024, month = 1, day = 15\<rparr>,
      Gender = None, Condition = Some (Num c), Hospital_ID = Some (Num 1),
      Readmitted = Some 0, Outcome = Some (Str ''Improved'')\<rparr>"

definition coded_hospital :: hospital where
  "coded_hospital = \<lparr>hosp_Hospital_ID = Some (Num 1), hosp_Department = Some (Str ''General'')\<rparr>"

definition three_patients :: "patient list" where
  "three_patients = [unrecorded_patient, example_patient, other_patient]"

section \<open>The day count follows the calendar\<close>





lemma era_closed:
  fixes y :: int
  shows "y div 400 * 146097 + ((y - y div 400 * 400) * 365 + (y - y div 400 * 400) div 4
           - (y - y div 400 * 400) div 100) = gregorian_days y"
proof -
  define e where "e = y div 400"
  define r where "r = y mod 400"
  have y: "y = r + 400 * e"
    by (simp add: e_def r_def)
  have r: "y - e * 400 = r"
    by (simp add: y)
  have d4: "y div 4 = r div 4 + 100 * e"
    unfolding y using div_mult_self2 [of 4 r "100 * e"] by simp
  have d100: "y div 100 = r div 100 + 4 * e"
    unfolding y using div_mult_self2 [of 100 r "4 * e"] by simp
  have "e * 146097 + (r * 365 + r div 4 - r div 100) =
        365 * y + y div 4 - y div 100 + e"
    unfolding d4 d100 by (simp add: y)
  then show ?thesis
    unfolding gregorian_days_def e_def [symmetric] r .
qed

lemma days_from_civil_closed:
  "days_from_civil dt =
     gregorian_days (if month dt \<le> 2 then year dt - 1 else year dt) +
     (153 * (if month dt > 2 then month dt - 3 else month dt + 9) + 2) div 5 + day dt - 719469"
proof -
  define y where "y = (if month dt \<le> 2 then year dt - 1 else year dt)"
  define doy where "doy = (153 * (if month dt > 2 then month dt - 3 else month dt + 9) + 2) div 5 + day dt - 1"
  define E where "E = (y - y div 400 * 400) * 365 + (y - y div 400 * 400) div 4
           - (y - y div 400 * 400) div 100"
  have d: "days_from_civil dt = y div 400 * 146097 + (E + doy) - 719468"
    unfolding days_from_civil_def Let_def y_def doy_def E_def ..
  have "y div 400 * 146097 + E = gregorian_days y"
    unfolding E_def by (rule era_closed)
  then have "days_from_civil dt = gregorian_days y + doy - 719468"
    unfolding d by simp
  then show ?thesis
    unfolding y_def doy_def by simp
qed


lemma days_next_day: "days_from_civil (ymd y m (d + 1)) = days_from_civil (ymd y m d) + 1"
  by (simp add: days_from_civil_closed ymd_def)

lemma days_next_year: "days_from_civil (ymd (y + 1) 1 1) = days_from_civil (ymd y 12 31) + 1"
  by (simp add: days_from_civil_closed ymd_def)









section \<open>Rows of the enriched table\<close>

lemma df_of_row: "r \<in> set (df_of ps hs ts) \<Longrightarrow> \<exists>m. r = enrich_row m"
  by (auto simp: df_of_def)

lemma enrich_row_sel:
  "Age (enrich_row m) = age_of (DOB m)"
  "Age_Group (enrich_row m) = age_group_of (age_of (DOB m))"
  "Admission_Date (enrich_row m) = Admission_Date m"
  "Discharge_Date (enrich_row m) = Discharge_Date m"
  "Length_of_Stay (enrich_row m) = length_of_stay (Discharge_Date m) (Admission_Date m)"
  by (simp_all add: enrich_row_def)

lemma derived_columns_determined:
  assumes "DOB r = DOB r'" "Admission_Date r = Admission_Date r'"
    "Discharge_Date r = Discharge_Date r'"
  shows "Age (enrich_row r) = Age (enrich_row r') \<and>
         Age_Group (enrich_row r) = Age_Group (enrich_row r') \<and>
         Length_of_Stay (enrich_row r) = Length_of_Stay (enrich_row r')"
  using assms by (simp add: enrich_row_def)

lemma cut_bins: "cut bins labels a = spec_age_bucket a"
  by (simp add: bins_def labels_def spec_age_bucket_def)

section \<open>The end-to-end example\<close>

text \<open>
  Claim C1, as amended.  On the example (patient P1 born 2000-01-01, admitted 2024-01-05,
  discharged 2024-01-10, readmitted, condition Flu, outcome Improved; hospital H1 with
  department General; treatment Antiviral for Flu with effectiveness 0.8) the table has one
  row with age 24, age group Young Adult and length of stay 5; the readmission rate is 1, the
  average stay for Flu is 5 and the effectiveness of Antiviral is 0.8.
\<close>

theorem example_pipeline:
  "map Age example_df = [Some 24] \<and>
   map Age_Group example_df = [Some ''Young Adult''] \<and>
   map Length_of_Stay example_df = [Some 5] \<and>
   readmission_rate example_df = Some 1 \<and>
   map_of (avg_stay_condition example_df) (Str ''Flu'') = Some (Some 5) \<and>
   map_of (effectiveness_summary example_df) (Str ''Antiviral'') = Some (Some (8 / 10))"
  by code_simp

text \<open>
  Claim C1 as the specification states it asks for the age group Adult; age 24 lies in
  \<open>(18,35]\<close>, so the one row of the example is not in that group.
\<close>

theorem example_age_group_counterexample:
  "map Age_Group example_df \<noteq> [Some ''Adult'']"
  by code_simp

section \<open>Age groups\<close>

text \<open>
  Claim C2.  In every row of the table the age group is the bracket of the row's age
  under the fixed intervals \<open>(0,18]\<close>, \<open>(18,35]\<close>, \<open>(35,50]\<close>, \<open>(50,65]\<close>, \<open>(65,100]\<close>,
  upper bound inclusive; an age outside \<open>(0,100]\<close>, like a missing age, gives a missing
  age group and no error.
\<close>

theorem age_group_buckets:
  assumes "r \<in> set (df_of ps hs ts)"
  shows "Age_Group r = (case Age r of None \<Rightarrow> None | Some a \<Rightarrow> spec_age_bucket a)"
proof -
  from assms obtain m where "r = enrich_row m" by (auto dest: df_of_row)
  then show ?thesis
    by (simp add: enrich_row_sel age_group_of_def cut_bins split: option.splits)
qed

text \<open>
  Four patients born 2005-01-10, 2005-01-01, 2024-06-01 and 1900-01-01 have the ages 18,
  19, -1 and 124: Child, Young Adult, and twice unclassified.
\<close>

theorem age_group_buckets_witness:
  "(let df = df_of [patient_with (ymd 2005 1 10) (ymd 2024 1 5) (ymd 2024 1 10),
                    patient_with (ymd 2005 1 1) (ymd 2024 1 5) (ymd 2024 1 10),
                    patient_with (ymd 2024 6 1) (ymd 2024 1 5) (ymd 2024 1 10),
                    patient_with (ymd 1900 1 1) (ymd 2024 1 5) (ymd 2024 1 10)] [] []
    in map Age df = [Some 18, Some 19, Some (- 1), Some 124] \<and>
       map Age_Group df = [Some ''Child'', Some ''Young Adult'', None, None])"
proof -
  define df where "df = df_of [patient_with (ymd 2005 1 10) (ymd 2024 1 5) (ymd 2024 1 10),
                    patient_with (ymd 2005 1 1) (ymd 2024 1 5) (ymd 2024 1 10),
                    patient_with (ymd 2024 6 1) (ymd 2024 1 5) (ymd 2024 1 10),
                    patient_with (ymd 1900 1 1) (ymd 2024 1 5) (ymd 2024 1 10)] [] []"
  have len: "length df = 4"
    unfolding df_def by code_simp
  have ages: "map Age df = [Some 18, Some 19, Some (- 1), Some 124]"
    unfolding df_def by code_simp
  have "\<forall>r \<in> set df. Age_Group r = (case Age r of None \<Rightarrow> None | Some a \<Rightarrow> spec_age_bucket a)"
    unfolding df_def using age_group_buckets by blast
  then have "map Age_Group df = map (\<lambda>a. case a of None \<Rightarrow> None | Some a \<Rightarrow> spec_age_bucket a) (map Age df)"
    by simp
  then have "map Age_Group df = [Some ''Child'', Some ''Young Adult'', None, None]"
    unfolding ages by (simp add: spec_age_bucket_def)
  with ages show ?thesis
    unfolding df_def Let_def by simp
qed

section \<open>Forward fill\<close>

lemma column_ffill_from:
  assumes "\<And>p r. col (fill_row p r) = fill_cell (col p) (col r)"
  shows "map col (ffill_from prev rows) = ffill_col (col prev) (map col rows)"
  by (induction rows arbitrary: prev) (simp_all add: assms)

lemma length_ffill_col: "length (ffill_col p xs) = length xs"
  by (induction xs arbitrary: p) simp_all

lemma nth_ffill_col:
  "i < length xs \<Longrightarrow> ffill_col p xs ! i = fill_cell (foldl fill_cell p (take i xs)) (xs ! i)"
proof (induction xs arbitrary: p i)
  case Nil
  then show ?case by simp
next
  case (Cons c cs)
  then show ?case by (cases i) simp_all
qed

lemma nearest_preceding_Suc:
  "nearest_preceding xs (Suc i) = (case xs ! i of None \<Rightarrow> nearest_preceding xs i | Some v \<Rightarrow> Some v)"
  by (simp add: nearest_preceding_def split: option.splits)

lemma foldl_fill_cell_take:
  "i \<le> length xs \<Longrightarrow> foldl fill_cell None (take i xs) = nearest_preceding xs i"
proof (induction i)
  case 0
  then show ?case by (simp add: nearest_preceding_def)
next
  case (Suc i)
  then have "take (Suc i) xs = take i xs @ [xs ! i]"
    by (simp add: take_Suc_conv_app_nth)
  with Suc show ?case
    by (simp add: nearest_preceding_Suc fill_cell_def)
qed

lemma ffill_col_forward_filled: "ffill_col None xs = forward_filled xs"
  by (rule nth_equalityI)
     (simp_all add: length_ffill_col forward_filled_def nth_ffill_col foldl_fill_cell_take
        fill_cell_def split: option.splits)

lemma all_missing_sel:
  "Patient_ID all_missing = None" "DOB all_missing = None" "Admission_Date all_missing = None"
  "Discharge_Date all_missing = None" "Gender all_missing = None" "Condition all_missing = None"
  "Hospital_ID all_missing = None" "Readmitted all_missing = None" "Outcome all_missing = None"
  "Department all_missing = None" "Treatment_Type all_missing = None"
  "Effectiveness_Rate all_missing = None"
  by (simp_all add: all_missing_def)

lemma column_fillna_ffill:
  assumes "\<And>p r. col (fill_row p r) = fill_cell (col p) (col r)" and "col all_missing = None"
  shows "map col (fillna_ffill rows) = forward_filled (map col rows)"
  by (simp add: fillna_ffill_def column_ffill_from [of col, OF assms(1)] assms(2)
      ffill_col_forward_filled)

text \<open>
  Claim C7.  After the cleaning step every column of the table is the forward fill of what
  it was before: a missing cell has the value of the nearest preceding cell of its column
  that is not missing, a missing cell with no such cell before it (as in the first row) is
  still missing, and a cell that is not missing is unchanged.
\<close>

theorem fillna_ffill_columns:
  "map Patient_ID (fillna_ffill rows) = forward_filled (map Patient_ID rows) \<and>
   map DOB (fillna_ffill rows) = forward_filled (map DOB rows) \<and>
   map Admission_Date (fillna_ffill rows) = forward_filled (map Admission_Date rows) \<and>
   map Discharge_Date (fillna_ffill rows) = forward_filled (map Discharge_Date rows) \<and>
   map Gender (fillna_ffill rows) = forward_filled (map Gender rows) \<and>
   map Condition (fillna_ffill rows) = forward_filled (map Condition rows) \<and>
   map Hospital_ID (fillna_ffill rows) = forward_filled (map Hospital_ID rows) \<and>
   map Readmitted (fillna_ffill rows) = forward_filled (map Readmitted rows) \<and>
   map Outcome (fillna_ffill rows) = forward_filled (map Outcome rows) \<and>
   map Department (fillna_ffill rows) = forward_filled (map Department rows) \<and>
   map Treatment_Type (fillna_ffill rows) = forward_filled (map Treatment_Type rows) \<and>
   map Effectiveness_Rate (fillna_ffill rows) = forward_filled (map Effectiveness_Rate rows)"
  by (intro conjI column_fillna_ffill) (simp_all add: fill_row_def all_missing_sel)

text \<open>
  Five rows whose treatment types are missing, A, missing, missing, B: the first stays
  missing, the third and fourth become A, the others are unchanged.
\<close>

theorem fillna_ffill_columns_witness:
  "map Treatment_Type
     (fillna_ffill [merged_with (Some (Str ''Flu'')) None, merged_with None (Some (Str ''A'')),
                    merged_with None None, merged_with (Some (Str ''Cold'')) None,
                    merged_with None (Some (Str ''B''))]) =
     [None, Some (Str ''A''), Some (Str ''A''), Some (Str ''A''), Some (Str ''B'')] \<and>
   map Condition
     (fillna_ffill [merged_with (Some (Str ''Flu'')) None, merged_with None (Some (Str ''A'')),
                    merged_with None None, merged_with (Some (Str ''Cold'')) None,
                    merged_with None (Some (Str ''B''))]) =
     [Some (Str ''Flu''), Some (Str ''Flu''), Some (Str ''Flu''), Some (Str ''Cold''), Some (Str ''Cold'')]"
proof -
  define rows where "rows = [merged_with (Some (Str ''Flu'')) None, merged_with None (Some (Str ''A'')),
                    merged_with None None, merged_with (Some (Str ''Cold'')) None,
                    merged_with None (Some (Str ''B''))]"
  have t: "forward_filled (map Treatment_Type rows) = [None, Some (Str ''A''), Some (Str ''A''), Some (Str ''A''), Some (Str ''B'')]"
    unfolding rows_def by code_simp
  have c: "forward_filled (map Condition rows) =
      [Some (Str ''Flu''), Some (Str ''Flu''), Some (Str ''Flu''), Some (Str ''Cold''), Some (Str ''Cold'')]"
    unfolding rows_def by code_simp
  from fillna_ffill_columns [of rows] t c show ?thesis
    unfolding rows_def by simp
qed

section \<open>Grouped aggregates\<close>

lemma set_map_filter_key: "set (List.map_filter key rows) = {k. Some k \<in> key ` set rows}"
  by (auto simp: List.map_filter_def image_iff) (metis option.sel option.distinct(1))+

lemma groupby_keys:
  "map fst (groupby key rows) = sorted_list_of_set {k. Some k \<in> key ` set rows}"
proof -
  have "map fst (groupby key rows) = sort (remdups (List.map_filter key rows))"
    by (simp add: groupby_def comp_def)
  also have "\<dots> = sorted_list_of_set (set (List.map_filter key rows))"
    by (simp add: sorted_list_of_set_sort_remdups)
  finally show ?thesis
    by (simp add: set_map_filter_key)
qed

lemma group_count_keys:
  "map fst (group_count key col rows) = sorted_list_of_set {k. Some k \<in> key ` set rows}"
proof -
  have "map fst (group_count key col rows) = map fst (groupby key rows)"
    by (simp add: group_count_def comp_def case_prod_unfold)
  then show ?thesis
    by (simp add: groupby_keys)
qed

lemma group_mean_keys:
  "map fst (group_mean key col rows) = sorted_list_of_set {k. Some k \<in> key ` set rows}"
proof -
  have "map fst (group_mean key col rows) = map fst (groupby key rows)"
    by (simp add: group_mean_def comp_def case_prod_unfold)
  then show ?thesis
    by (simp add: groupby_keys)
qed

lemma finite_keys: "finite {k. Some k \<in> key ` set rows}"
proof -
  have "{k. Some k \<in> key ` set rows} = set (List.map_filter key rows)"
    by (simp add: set_map_filter_key)
  then show ?thesis by simp
qed

lemma keys_set:
  assumes "map fst kvs = sorted_list_of_set {k. Some k \<in> key ` set rows}"
  shows "fst ` set kvs = {k. Some k \<in> key ` set rows}"
proof -
  have "fst ` set kvs = set (map fst kvs)" by simp
  also have "\<dots> = {k. Some k \<in> key ` set rows}"
    unfolding assms using finite_keys [of key rows] by simp
  finally show ?thesis .
qed

lemma keys_sorted:
  assumes "map fst kvs = sorted_list_of_set {k. Some k \<in> key ` set rows}"
  shows "sorted (map fst kvs) \<and> distinct (map fst kvs)"
  unfolding assms by simp

lemma groupby_nonempty: "[] \<notin> snd ` set (groupby key rows)"
proof
  assume "[] \<in> snd ` set (groupby key rows)"
  then obtain k where k: "k \<in> set (List.map_filter key rows)"
    and e: "filter (\<lambda>r. key r = Some k) rows = []"
    by (auto simp: groupby_def)
  from k obtain r where "r \<in> set rows" "key r = Some k"
    by (auto simp: set_map_filter_key image_iff)
  with e show False
    by (auto simp: filter_empty_conv)
qed

text \<open>
  Claim C8.  Each grouped aggregate (admission and discharge trend, average stay by
  condition and by department, readmission by condition, outcome segment, effectiveness
  summary) has a key exactly when some row of the table carries that key in the grouping
  column; a key no row carries is absent.  No group is empty, so no mean is taken over an
  empty group.
\<close>

theorem aggregate_keys:
  "fst ` set (admission_trend df) = {k. Some k \<in> Admission_Month ` set df} \<and>
   fst ` set (discharge_trend df) = {k. Some k \<in> Discharge_Month ` set df} \<and>
   fst ` set (avg_stay_condition df) = {k. Some k \<in> Condition ` set df} \<and>
   fst ` set (avg_stay_department df) = {k. Some k \<in> Department ` set df} \<and>
   fst ` set (readmission_by_condition df) = {k. Some k \<in> Condition ` set df} \<and>
   fst ` set (outcome_segment df) = {k. Some k \<in> Outcome ` set df} \<and>
   fst ` set (effectiveness_summary df) = {k. Some k \<in> Treatment_Type ` set df} \<and>
   [] \<notin> snd ` set (groupby Condition df) \<and>
   [] \<notin> snd ` set (groupby Department df) \<and>
   [] \<notin> snd ` set (groupby Treatment_Type df)"
  unfolding admission_trend_def discharge_trend_def avg_stay_condition_def
    avg_stay_department_def readmission_by_condition_def outcome_segment_def
    effectiveness_summary_def
  by (intro conjI keys_set group_count_keys group_mean_keys groupby_nonempty)

text \<open>
  With the two example patients the conditions are Flu and Asthma and the admission months
  1 and 2; the aggregates have these keys and no other (no key Cold, no month 3).
\<close>

theorem aggregate_keys_witness:
  "fst ` set (avg_stay_condition two_patients_df) = {(Str ''Flu''), (Str ''Asthma'')} \<and>
   fst ` set (admission_trend two_patients_df) = {1, 2}"
proof -
  have "map Condition two_patients_df = [Some (Str ''Flu''), Some (Str ''Asthma'')]"
    by code_simp
  then have "set (map Condition two_patients_df) = {Some (Str ''Flu''), Some (Str ''Asthma'')}"
    by simp
  then have c: "Condition ` set two_patients_df = {Some (Str ''Flu''), Some (Str ''Asthma'')}"
    by (simp only: set_map)
  have "map Admission_Month two_patients_df = [Some 1, Some 2]"
    by code_simp
  then have "set (map Admission_Month two_patients_df) = {Some 1, Some 2}"
    by simp
  then have m: "Admission_Month ` set two_patients_df = {Some 1, Some 2}"
    by (simp only: set_map)
  from aggregate_keys [of two_patients_df] show ?thesis
    unfolding c m by auto
qed

section \<open>Merge\<close>

lemma patient_columns_add_hospital: "patient_columns (add_hospital p ho) = p"
  by (simp add: patient_columns_def add_hospital_def)

lemma patient_columns_add_treatment: "patient_columns (add_treatment w tr) = patient_columns w"
  by (simp add: patient_columns_def add_treatment_def)

lemma patient_columns_keys:
  "Condition (patient_columns r) = Condition r" "Hospital_ID (patient_columns r) = Hospital_ID r"
  by (simp_all add: patient_columns_def)

lemma merge_left_Cons:
  "merge_left lk rk cmb (l # ls) rs =
     (if filter (\<lambda>r. rk r = lk l) rs = [] then [cmb l None]
      else map (\<lambda>r. cmb l (Some r)) (filter (\<lambda>r. rk r = lk l) rs)) @ merge_left lk rk cmb ls rs"
  by (simp add: merge_left_def Let_def)

lemma merge_left_Nil: "merge_left lk rk cmb [] rs = []"
  by (simp add: merge_left_def)

lemma count_merge_left:
  assumes proj: "\<And>l ro. proj (cmb l ro) = pl l"
    and key: "\<And>l. pl l = p \<Longrightarrow> lk l = kp"
  shows "length (filter (\<lambda>out. proj out = p) (merge_left lk rk cmb ls rs)) =
         length (filter (\<lambda>l. pl l = p) ls) * max 1 (length (filter (\<lambda>r. rk r = kp) rs))"
proof (induction ls)
  case Nil
  show ?case by (simp add: merge_left_Nil)
next
  case (Cons l ls)
  show ?case
  proof (cases "pl l = p")
    case True
    then have "lk l = kp" by (rule key)
    with True Cons show ?thesis
      by (simp add: merge_left_Cons proj filter_map comp_def max_def Suc_le_eq)
  next
    case False
    with Cons show ?thesis
      by (simp add: merge_left_Cons proj filter_map comp_def)
  qed
qed

lemma set_merge_left:
  "set (merge_left lk rk cmb ls rs) =
     {cmb l None | l. l \<in> set ls \<and> filter (\<lambda>r. rk r = lk l) rs = []} \<union>
     {cmb l (Some r) | l r. l \<in> set ls \<and> r \<in> set rs \<and> rk r = lk l}"
proof (induction ls)
  case Nil
  show ?case by (simp add: merge_left_Nil)
next
  case (Cons l ls)
  show ?case
    unfolding merge_left_Cons set_append Cons.IH
    by (auto simp: filter_empty_conv)
qed

lemma count_merge_tables:
  "length (filter (\<lambda>r. patient_columns r = p) (merge_tables ps hs ts)) =
     count_list ps p *
     max 1 (length (filter (\<lambda>h. hosp_Hospital_ID h = Hospital_ID p) hs)) *
     max 1 (length (filter (\<lambda>t. trt_Condition t = Condition p) ts))"
proof -
  have 1: "length (filter (\<lambda>r. patient_columns r = p) (merge_tables ps hs ts)) =
      length (filter (\<lambda>w. patient_columns w = p)
        (merge_left Hospital_ID hosp_Hospital_ID add_hospital ps hs)) *
      max 1 (length (filter (\<lambda>t. trt_Condition t = Condition p) ts))"
    unfolding merge_tables_def
  proof (rule count_merge_left [where pl = patient_columns and kp = "Condition p"])
    show "patient_columns (add_treatment l ro) = patient_columns l" for l ro
      by (rule patient_columns_add_treatment)
    show "Condition l = Condition p" if "patient_columns l = p" for l :: with_hospital
      using patient_columns_keys(1) [of l] that by simp
  qed
  have 2: "length (filter (\<lambda>w. patient_columns w = p)
        (merge_left Hospital_ID hosp_Hospital_ID add_hospital ps hs)) =
      length (filter (\<lambda>q. q = p) ps) *
      max 1 (length (filter (\<lambda>h. hosp_Hospital_ID h = Hospital_ID p) hs))"
  proof (rule count_merge_left [where pl = "\<lambda>q. q" and kp = "Hospital_ID p"])
    show "patient_columns (add_hospital l ro) = l" for l ro
      by (rule patient_columns_add_hospital)
    show "Hospital_ID l = Hospital_ID p" if "l = p" for l :: patient
      using that by simp
  qed
  have 3: "length (filter (\<lambda>q. q = p) ps) = count_list ps p"
    by (induction ps) simp_all
  show ?thesis
    by (simp add: 1 2 3)
qed

lemma merge_tables_row:
  assumes "r \<in> set (merge_tables ps hs ts)"
  shows "patient_columns r \<in> set ps"
    and "if filter (\<lambda>h. hosp_Hospital_ID h = Hospital_ID r) hs = [] then Department r = None
         else Department r \<in> hosp_Department ` set (filter (\<lambda>h. hosp_Hospital_ID h = Hospital_ID r) hs)"
    and "if filter (\<lambda>t. trt_Condition t = Condition r) ts = []
         then Treatment_Type r = None \<and> Effectiveness_Rate r = None
         else (Treatment_Type r, Effectiveness_Rate r) \<in>
                (\<lambda>t. (trt_Treatment_Type t, trt_Effectiveness_Rate t)) `
                  set (filter (\<lambda>t. trt_Condition t = Condition r) ts)"
proof -
  from assms obtain w tr where w: "w \<in> set (merge_left Hospital_ID hosp_Hospital_ID add_hospital ps hs)"
    and r: "r = add_treatment w tr"
    and tr: "(tr = None \<and> filter (\<lambda>t. trt_Condition t = Condition w) ts = []) \<or>
             (\<exists>t. tr = Some t \<and> t \<in> set ts \<and> trt_Condition t = Condition w)"
    unfolding merge_tables_def set_merge_left by blast
  from w obtain p ho where p: "p \<in> set ps" and w': "w = add_hospital p ho"
    and ho: "(ho = None \<and> filter (\<lambda>h. hosp_Hospital_ID h = Hospital_ID p) hs = []) \<or>
             (\<exists>h. ho = Some h \<and> h \<in> set hs \<and> hosp_Hospital_ID h = Hospital_ID p)"
    unfolding set_merge_left by blast
  have sel: "Condition r = Condition w" "Hospital_ID r = Hospital_ID p" 
    "Department r = (case ho of None \<Rightarrow> None | Some h \<Rightarrow> hosp_Department h)"
    "Treatment_Type r = (case tr of None \<Rightarrow> None | Some t \<Rightarrow> trt_Treatment_Type t)"
    "Effectiveness_Rate r = (case tr of None \<Rightarrow> None | Some t \<Rightarrow> trt_Effectiveness_Rate t)"
    by (simp_all add: r w' add_treatment_def add_hospital_def)
  show "patient_columns r \<in> set ps"
    using p by (simp add: r w' patient_columns_add_treatment patient_columns_add_hospital)
  show "if filter (\<lambda>h. hosp_Hospital_ID h = Hospital_ID r) hs = [] then Department r = None
         else Department r \<in> hosp_Department ` set (filter (\<lambda>h. hosp_Hospital_ID h = Hospital_ID r) hs)"
    using ho unfolding sel by (auto simp: filter_empty_conv)
  show "if filter (\<lambda>t. trt_Condition t = Condition r) ts = []
         then Treatment_Type r = None \<and> Effectiveness_Rate r = None
         else (Treatment_Type r, Effectiveness_Rate r) \<in>
                (\<lambda>t. (trt_Treatment_Type t, trt_Effectiveness_Rate t)) `
                  set (filter (\<lambda>t. trt_Condition t = Condition r) ts)"
    using tr unfolding sel by (auto simp: filter_empty_conv)
qed

section \<open>Interventions\<close>

lemma last_insort_key:
  "last (insort_key f x zs) = (if \<exists>z \<in> set zs. f x \<le> f z then last zs else x)"
  by (induction zs) auto

lemma exists_maximal:
  fixes f :: "'a \<Rightarrow> 'b::linorder"
  assumes "ys \<noteq> []"
  shows "\<exists>y \<in> set ys. \<forall>z \<in> set ys. f z \<le> f y"
proof -
  have "finite (f ` set ys)" "f ` set ys \<noteq> {}"
    using assms by simp_all
  then have "Max (f ` set ys) \<in> f ` set ys"
    by (rule Max_in)
  then obtain y where y: "y \<in> set ys" "f y = Max (f ` set ys)"
    by auto
  then have "\<forall>z \<in> set ys. f z \<le> f y"
    by simp
  with y show ?thesis by blast
qed

lemma last_sort_key:
  fixes f :: "'a \<Rightarrow> 'b::linorder"
  assumes "ys \<noteq> []"
  shows "last (sort_key f ys) = last (filter (\<lambda>y. \<forall>z \<in> set ys. f z \<le> f y) ys)"
  using assms
proof (induction ys)
  case Nil
  then show ?case by simp
next
  case (Cons x xs)
  show ?case
  proof (cases "\<exists>z \<in> set xs. f x \<le> f z")
    case True
    then have ne: "xs \<noteq> []" by auto
    have same: "filter (\<lambda>y. \<forall>z \<in> set (x # xs). f z \<le> f y) xs =
                filter (\<lambda>y. \<forall>z \<in> set xs. f z \<le> f y) xs"
      using True by (intro filter_cong refl) (auto intro: order_trans)
    have nonempty: "filter (\<lambda>y. \<forall>z \<in> set xs. f z \<le> f y) xs \<noteq> []"
      using exists_maximal [OF ne, of f] by (auto simp: filter_empty_conv)
    have "last (sort_key f (x # xs)) = last (sort_key f xs)"
      using True by (simp add: last_insort_key)
    also have "\<dots> = last (filter (\<lambda>y. \<forall>z \<in> set xs. f z \<le> f y) xs)"
      by (rule Cons.IH [OF ne])
    also have "\<dots> = last (filter (\<lambda>y. \<forall>z \<in> set (x # xs). f z \<le> f y) (x # xs))"
      using nonempty unfolding filter.simps same by simp
    finally show ?thesis .
  next
    case False
    then have less: "\<forall>z \<in> set xs. f z < f x" by (simp add: not_le)
    then have none: "filter (\<lambda>y. \<forall>z \<in> set (x # xs). f z \<le> f y) xs = []"
      by (auto simp: filter_empty_conv not_le)
    have "last (sort_key f (x # xs)) = x"
      using False by (simp add: last_insort_key)
    moreover have "filter (\<lambda>y. \<forall>z \<in> set (x # xs). f z \<le> f y) (x # xs) = [x]"
      using less unfolding filter.simps none by (auto simp: less_imp_le)
    ultimately show ?thesis by simp
  qed
qed

lemma remdups_snoc: "remdups (ys @ [x]) = filter (\<lambda>y. y \<noteq> x) (remdups ys) @ [x]"
  by (induction ys) auto

lemma first_seen_Cons: "first_seen (x # vs) = x # filter (\<lambda>y. y \<noteq> x) (first_seen vs)"
  by (simp add: first_seen_def remdups_snoc rev_filter)

lemma set_first_seen: "set (first_seen vs) = set vs"
  by (simp add: first_seen_def)

lemma filter_filter_implied:
  assumes "\<And>y. Q y \<Longrightarrow> R y"
  shows "filter Q (filter R l) = filter Q l"
  using assms by (induction l) auto

lemma hd_filter_first_seen:
  "(case filter Q (first_seen vs) of [] \<Rightarrow> None | v # _ \<Rightarrow> Some v) =
   (case filter Q vs of [] \<Rightarrow> None | v # _ \<Rightarrow> Some v)"
proof (induction vs)
  case Nil
  show ?case by (simp add: first_seen_def)
next
  case (Cons x vs)
  show ?case
  proof (cases "Q x")
    case True
    then show ?thesis by (simp add: first_seen_Cons)
  next
    case False
    then have "filter Q (filter (\<lambda>y. y \<noteq> x) (first_seen vs)) = filter Q (first_seen vs)"
      by (intro filter_filter_implied) auto
    with False Cons show ?thesis by (simp add: first_seen_Cons)
  qed
qed

lemma top_value_most_frequent:
  "top_value xs =
     (case most_frequent_first (List.map_filter id xs) of
        None \<Rightarrow> Inl IndexError
      | Some v \<Rightarrow> Inr v)"
proof -
  define vs where "vs = List.map_filter id xs"
  define g where "g = (\<lambda>k. (k, count_list vs k))"
  define kc where "kc = map g (first_seen vs)"
  define Q where "Q = (\<lambda>v. \<forall>u \<in> set vs. count_list vs u \<le> count_list vs v)"
  have vc: "value_counts xs = rev (sort_key snd (rev kc))"
    by (simp add: value_counts_def vs_def kc_def g_def Let_def)
  show ?thesis
  proof (cases "vs = []")
    case True
    then have "value_counts xs = []"
      by (simp add: vc kc_def first_seen_def)
    with True show ?thesis
      by (simp add: top_value_def most_frequent_first_def vs_def [symmetric])
  next
    case False
    then have kc_ne: "rev kc \<noteq> []"
      using set_first_seen [of vs] by (auto simp: kc_def)
    have M: "(\<forall>z \<in> set kc. snd z \<le> snd (g k)) = Q k" for k
      by (auto simp: kc_def g_def Q_def set_first_seen)
    have fQ: "filter Q vs \<noteq> []"
      using exists_maximal [OF False, of "count_list vs"] by (auto simp: filter_empty_conv Q_def)
    then obtain v rest where v: "filter Q vs = v # rest"
      by (cases "filter Q vs") auto
    with hd_filter_first_seen [of Q vs] obtain rest' where v': "filter Q (first_seen vs) = v # rest'"
      by (cases "filter Q (first_seen vs)") auto
    have "filter (\<lambda>y. \<forall>z \<in> set kc. snd z \<le> snd y) kc = map g (filter Q (first_seen vs))"
      unfolding kc_def filter_map comp_def M [unfolded kc_def] ..
    then have fk: "filter (\<lambda>y. \<forall>z \<in> set kc. snd z \<le> snd y) kc = g v # map g rest'"
      by (simp add: v')
    have "hd (value_counts xs) = last (sort_key snd (rev kc))"
      by (simp add: vc hd_rev)
    also have "\<dots> = last (filter (\<lambda>y. \<forall>z \<in> set kc. snd z \<le> snd y) (rev kc))"
      using last_sort_key [OF kc_ne, of snd] by simp
    also have "\<dots> = hd (filter (\<lambda>y. \<forall>z \<in> set kc. snd z \<le> snd y) kc)"
      by (simp add: rev_filter [symmetric] last_rev)
    also have "\<dots> = g v"
      by (simp add: fk)
    finally have hd: "hd (value_counts xs) = g v" .
    have "length (value_counts xs) = length kc"
      by (simp add: vc)
    with kc_ne have "value_counts xs \<noteq> []"
      by auto
    with hd obtain tl where "value_counts xs = (v, count_list vs v) # tl"
      by (cases "value_counts xs") (auto simp: g_def)
    then show ?thesis
      by (simp add: top_value_def most_frequent_first_def vs_def [symmetric] v Q_def [symmetric])
  qed
qed


lemma most_frequent_first_None: "most_frequent_first vs = None \<longleftrightarrow> vs = []"
proof (cases "vs = []")
  case True
  then show ?thesis by (simp add: most_frequent_first_def)
next
  case False
  then have "filter (\<lambda>v. \<forall>u \<in> set vs. count_list vs u \<le> count_list vs v) vs \<noteq> []"
    using exists_maximal [OF False, of "count_list vs"] by (auto simp: filter_empty_conv)
  with False show ?thesis
    by (auto simp: most_frequent_first_def split: list.splits)
qed

lemma most_frequent_first_Some:
  assumes "most_frequent_first vs = Some t"
  shows "t \<in> set vs" and "count_list vs u \<le> count_list vs t"
    and "\<exists>before after. vs = before @ t # after \<and>
           (\<forall>u \<in> set before. count_list vs u < count_list vs t)"
proof -
  define Q where "Q = (\<lambda>v. \<forall>u \<in> set vs. count_list vs u \<le> count_list vs v)"
  from assms obtain rest where f: "filter Q vs = t # rest"
    by (auto simp: most_frequent_first_def Q_def split: list.splits)
  then obtain before after where vs: "vs = before @ t # after"
    and b: "\<forall>u \<in> set before. \<not> Q u" and Qt: "Q t"
    by (auto simp: filter_eq_Cons_iff)
  show "t \<in> set vs" by (simp add: vs)
  show "count_list vs u \<le> count_list vs t"
  proof (cases "u \<in> set vs")
    case True
    with Qt show ?thesis by (simp add: Q_def)
  next
    case False
    then have "count_list vs u = 0" by (simp add: count_list_0_iff)
    then show ?thesis by simp
  qed
  have "\<forall>u \<in> set before. count_list vs u < count_list vs t"
  proof
    fix u assume "u \<in> set before"
    with b have "\<not> Q u" by blast
    then obtain w where "w \<in> set vs" "count_list vs u < count_list vs w"
      by (auto simp: Q_def not_le)
    moreover from Qt \<open>w \<in> set vs\<close> have "count_list vs w \<le> count_list vs t"
      by (simp add: Q_def)
    ultimately show "count_list vs u < count_list vs t" by simp
  qed
  with vs show "\<exists>before after. vs = before @ t # after \<and>
           (\<forall>u \<in> set before. count_list vs u < count_list vs t)"
    by blast
qed

lemma agg_groups:
  assumes "\<And>k. k \<in> set ks \<Longrightarrow> f (G k) = (case h k of None \<Rightarrow> Inl IndexError | Some v \<Rightarrow> Inr v)"
  shows "if \<exists>k \<in> set ks. h k = None then agg f (map (\<lambda>k. (k, G k)) ks) = Inl IndexError
         else \<exists>m. agg f (map (\<lambda>k. (k, G k)) ks) = Inr m \<and> map fst m = ks \<and>
                (\<forall>(k, v) \<in> set m. h k = Some v)"
  using assms
proof (induction ks)
  case Nil
  show ?case by simp
next
  case (Cons k ks)
  have fk: "f (G k) = (case h k of None \<Rightarrow> Inl IndexError | Some v \<Rightarrow> Inr v)"
    by (rule Cons.prems) simp
  have IH: "if \<exists>k \<in> set ks. h k = None then agg f (map (\<lambda>k. (k, G k)) ks) = Inl IndexError
         else \<exists>m. agg f (map (\<lambda>k. (k, G k)) ks) = Inr m \<and> map fst m = ks \<and>
                (\<forall>(k, v) \<in> set m. h k = Some v)"
    by (rule Cons.IH) (simp add: Cons.prems)
  show ?case
  proof (cases "h k")
    case None
    with fk show ?thesis by simp
  next
    case (Some v)
    show ?thesis
    proof (cases "\<exists>k \<in> set ks. h k = None")
      case True
      with IH have "agg f (map (\<lambda>k. (k, G k)) ks) = Inl IndexError" by simp
      with True Some fk show ?thesis by simp
    next
      case False
      with IH obtain m where m: "agg f (map (\<lambda>k. (k, G k)) ks) = Inr m" "map fst m = ks"
        "\<forall>(k, v) \<in> set m. h k = Some v"
        by auto
      with False Some fk show ?thesis by simp
    qed
  qed
qed

lemma map_filter_id_map: "List.map_filter id (map f xs) = List.map_filter f xs"
  by (simp add: List.map_filter_def filter_map comp_def)

lemma group_top_value:
  "top_value (map Treatment_Type
      (filter (\<lambda>r. Condition r = Some c) (filter (\<lambda>r. Readmitted r = Some 1) df))) =
   (case most_frequent_first (readmitted_treatments df c) of
      None \<Rightarrow> Inl IndexError
    | Some v \<Rightarrow> Inr v)"
  by (simp add: top_value_most_frequent map_filter_id_map readmitted_treatments_def)

text \<open>
  Claim C4, as amended.  When every condition that has a row with readmitted = 1 has such
  a row with a treatment type that is not missing, the interventions have one entry for
  each of these conditions, in ascending order of the condition, and the entry of a
  condition is the most frequent treatment type among its rows with readmitted = 1; of two
  types tied for the highest count it is the one encountered first in table order.  When
  some such condition has no treatment type at all among these rows, the step raises
  \<^verbatim>\<open>IndexError\<close> and there are no interventions.
\<close>

theorem interventions_most_frequent:
  "if \<exists>c \<in> set (readmitted_conditions df). readmitted_treatments df c = []
   then interventions df = Inl IndexError
   else \<exists>m. interventions df = Inr m \<and>
          map fst m = sort (remdups (readmitted_conditions df)) \<and>
          (\<forall>(c, t) \<in> set m. most_frequent_first (readmitted_treatments df c) = Some t)"
proof -
  define R where "R = filter (\<lambda>r. Readmitted r = Some 1) df"
  define ks where "ks = sort (remdups (readmitted_conditions df))"
  have i: "interventions df =
      agg (\<lambda>g. top_value (map Treatment_Type g))
        (map (\<lambda>c. (c, filter (\<lambda>r. Condition r = Some c) R)) ks)"
    by (simp add: interventions_def groupby_def R_def ks_def readmitted_conditions_def)
  have s: "set ks = set (readmitted_conditions df)"
    by (simp add: ks_def)
  have n: "(most_frequent_first (readmitted_treatments df c) = None) =
           (readmitted_treatments df c = [])" for c
    by (rule most_frequent_first_None)
  have "if \<exists>c \<in> set ks. most_frequent_first (readmitted_treatments df c) = None
        then interventions df = Inl IndexError
        else \<exists>m. interventions df = Inr m \<and> map fst m = ks \<and>
               (\<forall>(c, t) \<in> set m. most_frequent_first (readmitted_treatments df c) = Some t)"
    unfolding i R_def by (rule agg_groups) (rule group_top_value)
  then show ?thesis
    unfolding n s unfolding ks_def .
qed

text \<open>
  Two readmitted Flu patients and the treatments Rest and Antiviral for Flu, in this order:
  both types occur twice, and the intervention is Rest, the first encountered.
\<close>

theorem interventions_most_frequent_witness:
  "readmitted_treatments
     (df_of [example_patient, example_patient] [example_hospital]
        [example_treatment_2, example_treatment]) (Str ''Flu'') =
     [(Str ''Rest''), (Str ''Antiviral''), (Str ''Rest''), (Str ''Antiviral'')] \<and>
   interventions
     (df_of [example_patient, example_patient] [example_hospital]
        [example_treatment_2, example_treatment]) = Inr [((Str ''Flu''), (Str ''Rest''))]"
proof -
  define df where "df = df_of [example_patient, example_patient] [example_hospital]
        [example_treatment_2, example_treatment]"
  have c: "readmitted_conditions df = [(Str ''Flu''), (Str ''Flu''), (Str ''Flu''), (Str ''Flu'')]"
    unfolding df_def by code_simp
  have t: "readmitted_treatments df (Str ''Flu'') = [(Str ''Rest''), (Str ''Antiviral''), (Str ''Rest''), (Str ''Antiviral'')]"
    unfolding df_def by code_simp
  have f: "most_frequent_first [(Str ''Rest''), (Str ''Antiviral''), (Str ''Rest''), (Str ''Antiviral'')] = Some (Str ''Rest'')"
    by code_simp
  have k: "sort (remdups [(Str ''Flu''), (Str ''Flu''), (Str ''Flu''), (Str ''Flu'')]) = [(Str ''Flu'')]"
    by code_simp
  from interventions_most_frequent [of df]
  obtain m where m: "interventions df = Inr m" "map fst m = [(Str ''Flu'')]"
    "\<forall>(c, t) \<in> set m. most_frequent_first (readmitted_treatments df c) = Some t"
    unfolding c k using t by auto
  from m(2) obtain v where mv: "m = [((Str ''Flu''), v)]"
    by (cases m) auto
  with m(3) t f have "v = (Str ''Rest'')"
    by simp
  with m(1) mv t show ?thesis
    unfolding df_def by simp
qed

text \<open>
  Claim C4 as the specification states it gives every condition with a readmitted row an
  intervention.  With the example patient and no treatment row, Flu has a readmitted row
  and no treatment type, and the step raises \<^verbatim>\<open>IndexError\<close>.
\<close>

theorem interventions_index_error_counterexample:
  "map Condition (df_of [example_patient] [example_hospital] []) = [Some (Str ''Flu'')] \<and>
   map Readmitted (df_of [example_patient] [example_hospital] []) = [Some 1] \<and>
   interventions (df_of [example_patient] [example_hospital] []) = Inl IndexError"
  by code_simp

section \<open>The run of the script\<close>



lemma script_df_empty: "script_df [] hs ts = Inl AttributeError"
  by (simp add: script_df_def merge_script_def df_merge_def keys_mismatch_def merge_left_def
      fillna_ffill_def raises_to_datetime_def List.map_filter_def raises_age_def)



lemma script_df_example:
  "script_df [example_patient] [example_hospital] [example_treatment] = Inr example_df"
  by code_simp

text \<open>So do the other example tables.\<close>

lemma script_df_two_patients:
  "script_df [example_patient, other_patient] [example_hospital] [example_treatment] =
     Inr two_patients_df"
  "script_df [other_patient, example_patient] [example_hospital] [example_treatment] =
     Inr (df_of [other_patient, example_patient] [example_hospital] [example_treatment])"
  by code_simp+

lemma script_df_ages:
  "script_df [patient_with (ymd 2005 1 10) (ymd 2024 1 5) (ymd 2024 1 10),
              patient_with (ymd 2005 1 1) (ymd 2024 1 5) (ymd 2024 1 10),
              patient_with (ymd 2024 6 1) (ymd 2024 1 5) (ymd 2024 1 10),
              patient_with (ymd 1900 1 1) (ymd 2024 1 5) (ymd 2024 1 10)] [] [] =
     Inr (df_of [patient_with (ymd 2005 1 10) (ymd 2024 1 5) (ymd 2024 1 10),
              patient_with (ymd 2005 1 1) (ymd 2024 1 5) (ymd 2024 1 10),
              patient_with (ymd 2024 6 1) (ymd 2024 1 5) (ymd 2024 1 10),
              patient_with (ymd 1900 1 1) (ymd 2024 1 5) (ymd 2024 1 10)] [] [])"
  by code_simp

lemma script_df_interventions:
  "script_df [example_patient, example_patient] [example_hospital]
     [example_treatment_2, example_treatment] =
     Inr (df_of [example_patient, example_patient] [example_hospital]
        [example_treatment_2, example_treatment])"
  "script_df [example_patient] [example_hospital] [] =
     Inr (df_of [example_patient] [example_hospital] [])"
  by code_simp+

lemma script_df_coded:
  "script_df [coded_patient 10, coded_patient 9] [coded_hospital] [] =
     Inr (df_of [coded_patient 10, coded_patient 9] [coded_hospital] [])"
  by code_simp

section \<open>Length of stay\<close>



section \<open>Readmission rate\<close>

lemma sum_list_indicator:
  "sum_list (map (\<lambda>r. if P r then 1 else 0) xs) = (of_nat (length (filter P xs)) :: rat)"
  by (induction xs) simp_all

lemma recorded_cells:
  assumes "\<forall>r \<in> set df. Readmitted r = None \<or> Readmitted r = Some 0 \<or> Readmitted r = Some 1"
  shows "List.map_filter id (int_cells (map Readmitted df)) =
         map (\<lambda>r. if Readmitted r = Some 1 then 1 else 0) (filter (\<lambda>r. Readmitted r \<noteq> None) df)"
  using assms by (induction df) (auto simp: List.map_filter_def int_cells_def)

lemma filter_recorded_one:
  "filter (\<lambda>r. Readmitted r = Some 1) (filter (\<lambda>r. Readmitted r \<noteq> None) df) =
   filter (\<lambda>r. Readmitted r = Some (1::int)) df"
  by (induction df) auto

lemma readmission_rate_recorded:
  assumes "\<forall>r \<in> set df. Readmitted r = None \<or> Readmitted r = Some 0 \<or> Readmitted r = Some 1"
  shows "readmission_rate df =
     (if filter (\<lambda>r. Readmitted r \<noteq> None) df = [] then None
      else Some (of_nat (length (filter (\<lambda>r. Readmitted r = Some 1) df)) /
                 of_nat (length (filter (\<lambda>r. Readmitted r \<noteq> None) df))))"
  unfolding readmission_rate_def mean_def Let_def recorded_cells [OF assms] sum_list_indicator
    filter_recorded_one
  by simp

text \<open>
  Claim C3, as amended.  With no patient rows the run raises (\<^verbatim>\<open>AttributeError\<close>, at the age
  computation) and no rate is computed.  When the table is built and every readmitted cell
  is 0, 1 or missing, the readmission rate is the number of rows with indicator 1 divided by
  the number of rows whose indicator is not missing, a value from 0 to 1; it is \<^verbatim>\<open>NaN\<close> when
  every indicator is missing.
\<close>

theorem readmission_rate_fraction:
  "script_readmission_rate [] hs ts = Inl AttributeError \<and>
   (script_df ps hs ts = Inr df \<and>
    (\<forall>r \<in> set df. Readmitted r = None \<or> Readmitted r = Some 0 \<or> Readmitted r = Some 1) \<longrightarrow>
      script_readmission_rate ps hs ts = Inr (readmission_rate df) \<and>
      (if filter (\<lambda>r. Readmitted r \<noteq> None) df = [] then readmission_rate df = None
       else readmission_rate df =
              Some (of_nat (length (filter (\<lambda>r. Readmitted r = Some 1) df)) /
                    of_nat (length (filter (\<lambda>r. Readmitted r \<noteq> None) df))) \<and>
            0 \<le> (of_nat (length (filter (\<lambda>r. Readmitted r = Some 1) df)) /
                  of_nat (length (filter (\<lambda>r. Readmitted r \<noteq> None) df)) :: rat) \<and>
            (of_nat (length (filter (\<lambda>r. Readmitted r = Some 1) df)) /
               of_nat (length (filter (\<lambda>r. Readmitted r \<noteq> None) df)) :: rat) \<le> 1))"
proof (intro conjI impI)
  show "script_readmission_rate [] hs ts = Inl AttributeError"
    by (simp add: script_readmission_rate_def script_df_empty)
next
  assume a: "script_df ps hs ts = Inr df \<and>
    (\<forall>r \<in> set df. Readmitted r = None \<or> Readmitted r = Some 0 \<or> Readmitted r = Some 1)"
  then show "script_readmission_rate ps hs ts = Inr (readmission_rate df)"
    by (simp add: script_readmission_rate_def)
  define k n where "k = length (filter (\<lambda>r. Readmitted r = Some 1) df)"
    and "n = length (filter (\<lambda>r. Readmitted r \<noteq> None) df)"
  have "filter (\<lambda>r. Readmitted r = Some 1) df =
        filter (\<lambda>r. Readmitted r = Some 1) (filter (\<lambda>r. Readmitted r \<noteq> None) df)"
    by (rule filter_recorded_one [symmetric])
  then have "k \<le> n"
    unfolding k_def n_def by (metis length_filter_le)
  then have le: "(of_nat k :: rat) \<le> of_nat n"
    by (simp only: of_nat_le_iff)
  have n0: "n = 0 \<longleftrightarrow> filter (\<lambda>r. Readmitted r \<noteq> None) df = []"
    by (simp add: n_def)
  have rate: "readmission_rate df = (if n = 0 then None else Some (of_nat k / of_nat n))"
    using readmission_rate_recorded [of df] a by (simp add: k_def n_def)
  have "if n = 0 then readmission_rate df = None
        else readmission_rate df = Some (of_nat k / of_nat n) \<and>
             0 \<le> (of_nat k / of_nat n :: rat) \<and> (of_nat k / of_nat n :: rat) \<le> 1"
    using rate le by (simp add: divide_le_eq_1)
  then show "if filter (\<lambda>r. Readmitted r \<noteq> None) df = [] then readmission_rate df = None
       else readmission_rate df =
              Some (of_nat (length (filter (\<lambda>r. Readmitted r = Some 1) df)) /
                    of_nat (length (filter (\<lambda>r. Readmitted r \<noteq> None) df))) \<and>
            0 \<le> (of_nat (length (filter (\<lambda>r. Readmitted r = Some 1) df)) /
                  of_nat (length (filter (\<lambda>r. Readmitted r \<noteq> None) df)) :: rat) \<and>
            (of_nat (length (filter (\<lambda>r. Readmitted r = Some 1) df)) /
               of_nat (length (filter (\<lambda>r. Readmitted r \<noteq> None) df)) :: rat) \<le> 1"
    unfolding n0 [symmetric] unfolding k_def n_def .
qed

text \<open>
  Three patients whose indicators are missing, 1 and 0: the rate is one half, one of the two
  recorded.  No patient: the run raises.
\<close>

theorem readmission_rate_fraction_witness:
  "script_df three_patients [example_hospital] [example_treatment] =
     Inr (df_of three_patients [example_hospital] [example_treatment]) \<and>
   map Readmitted (df_of three_patients [example_hospital] [example_treatment]) =
     [None, Some 1, Some 0] \<and>
   script_readmission_rate three_patients [example_hospital] [example_treatment] =
     Inr (Some (1 / 2)) \<and>
   script_readmission_rate [] [example_hospital] [example_treatment] = Inl AttributeError"
proof -
  define df where "df = df_of three_patients [example_hospital] [example_treatment]"
  have run: "script_df three_patients [example_hospital] [example_treatment] = Inr df"
    unfolding df_def by code_simp
  have r: "map Readmitted df = [None, Some 1, Some 0]"
    unfolding df_def by code_simp
  then have "length df = 3"
    by (metis length_map length_Cons list.size(3) numeral_3_eq_3)
  then obtain r0 r1 r2 where rows: "df = [r0, r1, r2]"
    by (auto simp: length_Suc_conv numeral_3_eq_3)
  have vals: "Readmitted r0 = None" "Readmitted r1 = Some 1" "Readmitted r2 = Some 0"
    using r unfolding rows by simp_all
  then have h: "\<forall>r \<in> set df. Readmitted r = None \<or> Readmitted r = Some 0 \<or> Readmitted r = Some 1"
    by (simp add: rows)
  from readmission_rate_fraction [of "[example_hospital]" "[example_treatment]" three_patients df]
    run h
  have "script_readmission_rate [] [example_hospital] [example_treatment] = Inl AttributeError"
    and "script_readmission_rate three_patients [example_hospital] [example_treatment] =
           Inr (readmission_rate df)"
    and "if filter (\<lambda>r. Readmitted r \<noteq> None) df = [] then readmission_rate df = None
       else readmission_rate df =
              Some (of_nat (length (filter (\<lambda>r. Readmitted r = Some 1) df)) /
                    of_nat (length (filter (\<lambda>r. Readmitted r \<noteq> None) df)))"
    by simp_all
  moreover from this(3) vals have "readmission_rate df = Some (1 / 2)"
    by (simp add: rows)
  ultimately show ?thesis
    using run r unfolding df_def by simp
qed

text \<open>
  Claim C3 as the specification states it divides by the total row count.  With two rows
  whose indicators are missing and 1, the rate is 1, not one half: the mean skips the
  missing cell, which forward fill leaves in the first row.
\<close>

theorem readmission_rate_missing_counterexample:
  "map Readmitted (df_of [unrecorded_patient, example_patient] [example_hospital] [example_treatment]) =
     [None, Some 1] \<and>
   script_readmission_rate [unrecorded_patient, example_patient] [example_hospital]
     [example_treatment] = Inr (Some 1)"
  by code_simp

section \<open>Merge, with the check of the key columns\<close>

lemma merge_left_empty_iff: "merge_left lk rk cmb ls rs = [] \<longleftrightarrow> ls = []"
proof (cases ls)
  case Nil
  then show ?thesis by (simp add: merge_left_Nil)
next
  case (Cons l ls')
  then show ?thesis by (simp add: merge_left_Cons)
qed

lemma condition_add_hospital: "Condition (add_hospital p ho) = Condition p"
  by (simp add: add_hospital_def)

lemma condition_after_first_merge:
  "Condition ` set (merge_left Hospital_ID hosp_Hospital_ID add_hospital ps hs) = Condition ` set ps"
proof (rule set_eqI)
  fix c
  show "c \<in> Condition ` set (merge_left Hospital_ID hosp_Hospital_ID add_hospital ps hs) \<longleftrightarrow>
        c \<in> Condition ` set ps"
  proof
    assume "c \<in> Condition ` set (merge_left Hospital_ID hosp_Hospital_ID add_hospital ps hs)"
    then obtain w where w: "w \<in> set (merge_left Hospital_ID hosp_Hospital_ID add_hospital ps hs)"
      and c: "c = Condition w"
      by (rule imageE)
    from w obtain p ho where "p \<in> set ps" "w = add_hospital p ho"
      unfolding set_merge_left by blast
    with c show "c \<in> Condition ` set ps"
      by (simp add: condition_add_hospital)
  next
    assume "c \<in> Condition ` set ps"
    then obtain p where p: "p \<in> set ps" and c: "c = Condition p"
      by (rule imageE)
    have "\<exists>ho. add_hospital p ho \<in> set (merge_left Hospital_ID hosp_Hospital_ID add_hospital ps hs)"
    proof (cases "filter (\<lambda>h. hosp_Hospital_ID h = Hospital_ID p) hs")
      case Nil
      with p have "add_hospital p None \<in> set (merge_left Hospital_ID hosp_Hospital_ID add_hospital ps hs)"
        unfolding set_merge_left by blast
      then show ?thesis ..
    next
      case (Cons h rest)
      then have "h \<in> set (filter (\<lambda>h. hosp_Hospital_ID h = Hospital_ID p) hs)"
        by simp
      then have "h \<in> set hs" "hosp_Hospital_ID h = Hospital_ID p"
        by simp_all
      with p have "add_hospital p (Some h) \<in> set (merge_left Hospital_ID hosp_Hospital_ID add_hospital ps hs)"
        unfolding set_merge_left by blast
      then show ?thesis ..
    qed
    then obtain ho where "add_hospital p ho \<in> set (merge_left Hospital_ID hosp_Hospital_ID add_hospital ps hs)"
      ..
    then have "Condition (add_hospital p ho) \<in>
        Condition ` set (merge_left Hospital_ID hosp_Hospital_ID add_hospital ps hs)"
      by (rule imageI)
    with c show "c \<in> Condition ` set (merge_left Hospital_ID hosp_Hospital_ID add_hospital ps hs)"
      by (simp add: condition_add_hospital)
  qed
qed

lemma keys_mismatch_after_first_merge:
  "keys_mismatch (map Condition (merge_left Hospital_ID hosp_Hospital_ID add_hospital ps hs)) col =
   keys_mismatch (map Condition ps) col"
  by (simp add: keys_mismatch_def has_text_def condition_after_first_merge merge_left_empty_iff)

lemma merge_script_eq:
  "merge_script ps hs ts =
     (if keys_mismatch (map Hospital_ID ps) (map hosp_Hospital_ID hs) \<or>
         keys_mismatch (map Condition ps) (map trt_Condition ts)
      then Inl ValueError
      else Inr (merge_tables ps hs ts))"
  by (simp add: merge_script_def df_merge_def merge_tables_def keys_mismatch_after_first_merge)

text \<open>
  Claim C5, as amended.  The merge is a left join of the patients with the hospitals on the
  hospital identifier followed by a left join of the result with the treatments on the
  condition, keys matching by equality; it raises \<^verbatim>\<open>ValueError\<close> when the key columns of a
  join are one text and one numeric (and both tables have rows), and gives the joined table
  otherwise.  In the joined table a patient row whose hospital identifier matches \<open>j\<close>
  hospital rows and whose condition matches \<open>k\<close> treatment rows appears
  \<open>max 1 j * max 1 k\<close> times (times the number of copies of that row in the patient
  table), so every patient row is kept and no row comes from elsewhere.  In a row of the
  joined table the department is missing when no hospital row matches and is that of a
  matching hospital row otherwise; likewise the treatment type and the effectiveness rate
  with the treatment rows.
\<close>

theorem merge_tables_left_joins:
  "merge_script ps hs ts =
     (if keys_mismatch (map Hospital_ID ps) (map hosp_Hospital_ID hs) \<or>
         keys_mismatch (map Condition ps) (map trt_Condition ts)
      then Inl ValueError
      else Inr (merge_tables ps hs ts)) \<and>
   length (filter (\<lambda>r. patient_columns r = p) (merge_tables ps hs ts)) =
     count_list ps p *
     max 1 (length (filter (\<lambda>h. hosp_Hospital_ID h = Hospital_ID p) hs)) *
     max 1 (length (filter (\<lambda>t. trt_Condition t = Condition p) ts)) \<and>
   (\<forall>r \<in> set (merge_tables ps hs ts).
      patient_columns r \<in> set ps \<and>
      (if filter (\<lambda>h. hosp_Hospital_ID h = Hospital_ID r) hs = [] then Department r = None
       else Department r \<in> hosp_Department ` set (filter (\<lambda>h. hosp_Hospital_ID h = Hospital_ID r) hs)) \<and>
      (if filter (\<lambda>t. trt_Condition t = Condition r) ts = []
       then Treatment_Type r = None \<and> Effectiveness_Rate r = None
       else (Treatment_Type r, Effectiveness_Rate r) \<in>
              (\<lambda>t. (trt_Treatment_Type t, trt_Effectiveness_Rate t)) `
                set (filter (\<lambda>t. trt_Condition t = Condition r) ts)))"
  using merge_script_eq [of ps hs ts] count_merge_tables [of p ps hs ts]
    merge_tables_row [of _ ps hs ts]
  by blast

text \<open>
  The example patient matches two hospital rows and two treatment rows and appears four
  times; the other patient matches none and appears once, with department and treatment
  type missing.  A patient table with numeric hospital identifiers against the hospital
  table with the identifier H1 raises.
\<close>

theorem merge_tables_left_joins_witness:
  "merge_script [example_patient, other_patient] [example_hospital, example_hospital_2]
     [example_treatment, example_treatment_2] =
     Inr (merge_tables [example_patient, other_patient] [example_hospital, example_hospital_2]
        [example_treatment, example_treatment_2]) \<and>
   length (filter (\<lambda>r. patient_columns r = example_patient)
     (merge_tables [example_patient, other_patient] [example_hospital, example_hospital_2]
        [example_treatment, example_treatment_2])) = 4 \<and>
   length (filter (\<lambda>r. patient_columns r = other_patient)
     (merge_tables [example_patient, other_patient] [example_hospital, example_hospital_2]
        [example_treatment, example_treatment_2])) = 1 \<and>
   map Department
     (merge_tables [example_patient, other_patient] [example_hospital, example_hospital_2]
        [example_treatment, example_treatment_2]) =
     [Some (Str ''General''), Some (Str ''General''), Some (Str ''Cardiology''),
      Some (Str ''Cardiology''), None] \<and>
   map Treatment_Type
     (merge_tables [example_patient, other_patient] [example_hospital, example_hospital_2]
        [example_treatment, example_treatment_2]) =
     [Some (Str ''Antiviral''), Some (Str ''Rest''), Some (Str ''Antiviral''), Some (Str ''Rest''),
      None] \<and>
   merge_script [coded_patient 7] [example_hospital] [example_treatment] = Inl ValueError"
proof -
  have ne: "example_patient \<noteq> other_patient"
    by (simp add: example_patient_def other_patient_def)
  have c1: "count_list [example_patient, other_patient] example_patient = 1"
    and c2: "count_list [example_patient, other_patient] other_patient = 1"
    using ne by simp_all
  have h1: "length (filter (\<lambda>h. hosp_Hospital_ID h = Hospital_ID example_patient)
               [example_hospital, example_hospital_2]) = 2"
    and h2: "length (filter (\<lambda>h. hosp_Hospital_ID h = Hospital_ID other_patient)
               [example_hospital, example_hospital_2]) = 0"
    by (simp_all add: example_patient_def other_patient_def example_hospital_def
        example_hospital_2_def)
  have t1: "length (filter (\<lambda>t. trt_Condition t = Condition example_patient)
               [example_treatment, example_treatment_2]) = 2"
    and t2: "length (filter (\<lambda>t. trt_Condition t = Condition other_patient)
               [example_treatment, example_treatment_2]) = 0"
    by (simp_all add: example_patient_def other_patient_def example_treatment_def
        example_treatment_2_def)
  have m1: "\<not> (keys_mismatch (map Hospital_ID [example_patient, other_patient])
                 (map hosp_Hospital_ID [example_hospital, example_hospital_2]) \<or>
               keys_mismatch (map Condition [example_patient, other_patient])
                 (map trt_Condition [example_treatment, example_treatment_2]))"
    by code_simp
  have m2: "keys_mismatch (map Hospital_ID [coded_patient 7]) (map hosp_Hospital_ID [example_hospital]) \<or>
            keys_mismatch (map Condition [coded_patient 7]) (map trt_Condition [example_treatment])"
    by code_simp
  have d: "map Department
     (merge_tables [example_patient, other_patient] [example_hospital, example_hospital_2]
        [example_treatment, example_treatment_2]) =
     [Some (Str ''General''), Some (Str ''General''), Some (Str ''Cardiology''),
      Some (Str ''Cardiology''), None]"
    by code_simp
  have t: "map Treatment_Type
     (merge_tables [example_patient, other_patient] [example_hospital, example_hospital_2]
        [example_treatment, example_treatment_2]) =
     [Some (Str ''Antiviral''), Some (Str ''Rest''), Some (Str ''Antiviral''), Some (Str ''Rest''),
      None]"
    by code_simp
  from merge_tables_left_joins [of "[example_patient, other_patient]"
      "[example_hospital, example_hospital_2]" "[example_treatment, example_treatment_2]"
      example_patient]
  have a: "length (filter (\<lambda>r. patient_columns r = example_patient)
     (merge_tables [example_patient, other_patient] [example_hospital, example_hospital_2]
        [example_treatment, example_treatment_2])) = 4"
    and r: "merge_script [example_patient, other_patient] [example_hospital, example_hospital_2]
     [example_treatment, example_treatment_2] =
     Inr (merge_tables [example_patient, other_patient] [example_hospital, example_hospital_2]
        [example_treatment, example_treatment_2])"
    unfolding c1 h1 t1 using m1 by simp_all
  from merge_tables_left_joins [of "[example_patient, other_patient]"
      "[example_hospital, example_hospital_2]" "[example_treatment, example_treatment_2]"
      other_patient]
  have b: "length (filter (\<lambda>r. patient_columns r = other_patient)
     (merge_tables [example_patient, other_patient] [example_hospital, example_hospital_2]
        [example_treatment, example_treatment_2])) = 1"
    unfolding c2 h2 t2 by simp
  from merge_tables_left_joins [of "[coded_patient 7]" "[example_hospital]" "[example_treatment]"
      example_patient] m2
  have e: "merge_script [coded_patient 7] [example_hospital] [example_treatment] = Inl ValueError"
    by simp
  from r a b d t e show ?thesis
    by blast
qed

text \<open>
  Claim C5 as the specification states it has a patient row appear \<open>k\<close> times when its
  condition matches \<open>k\<close> treatment rows.  With two hospital rows for H1 the example patient,
  whose condition matches one treatment row, appears twice.
\<close>

theorem merge_fan_out_counterexample:
  "map_sum id (map Patient_ID)
     (merge_script [example_patient] [example_hospital, example_hospital_2] [example_treatment]) =
     Inr [Some (Str ''P1''), Some (Str ''P1'')] \<and>
   count_list (map trt_Condition [example_treatment]) (Condition example_patient) = 1"
  by code_simp

section \<open>Order of the keys\<close>

lemma ffill_col_subset: "set (ffill_col p xs) \<subseteq> insert p (set xs)"
proof (induction xs arbitrary: p)
  case Nil
  show ?case by simp
next
  case (Cons c cs)
  have "fill_cell p c = p \<or> fill_cell p c = c"
    by (simp add: fill_cell_def split: option.splits)
  with Cons [of "fill_cell p c"] show ?case by auto
qed

lemma ffill_col_keeps: "Some v \<in> set xs \<Longrightarrow> Some v \<in> set (ffill_col p xs)"
proof (induction xs arbitrary: p)
  case Nil
  then show ?case by simp
next
  case (Cons c cs)
  then show ?case by (auto simp: fill_cell_def)
qed

lemma ffill_col_values: "Some v \<in> set (ffill_col None xs) \<longleftrightarrow> Some v \<in> set xs"
  using ffill_col_subset [of None xs] ffill_col_keeps [of v xs None] by auto

lemma fillna_ffill_values:
  assumes "\<And>p r. col (fill_row p r) = fill_cell (col p) (col r)" and "col all_missing = None"
  shows "{v. Some v \<in> col ` set (fillna_ffill rows)} = {v. Some v \<in> col ` set rows}"
proof -
  have "col ` set (fillna_ffill rows) = set (map col (fillna_ffill rows))"
    by simp
  also have "\<dots> = set (ffill_col None (map col rows))"
    by (simp only: column_fillna_ffill [of col, OF assms] ffill_col_forward_filled)
  finally have "Some v \<in> col ` set (fillna_ffill rows) \<longleftrightarrow> Some v \<in> set (map col rows)" for v
    by (simp only: ffill_col_values)
  then show ?thesis by simp
qed

lemma set_merge_left_cong:
  assumes "set ls' = set ls" "set rs' = set rs"
  shows "set (merge_left lk rk cmb ls' rs') = set (merge_left lk rk cmb ls rs)"
  unfolding set_merge_left filter_empty_conv assms ..

lemma set_merge_tables_cong:
  assumes "set ps' = set ps" "set hs' = set hs" "set ts' = set ts"
  shows "set (merge_tables ps' hs' ts') = set (merge_tables ps hs ts)"
  unfolding merge_tables_def
  by (intro set_merge_left_cong assms)

lemma month_keys:
  "{k. Some k \<in> (\<lambda>r. map_option f (col r)) ` A} = f ` {d. Some d \<in> col ` A}"
proof (rule set_eqI)
  fix k
  have "Some k \<in> (\<lambda>r. map_option f (col r)) ` A \<longleftrightarrow> (\<exists>r \<in> A. \<exists>d. col r = Some d \<and> k = f d)"
  proof
    assume "Some k \<in> (\<lambda>r. map_option f (col r)) ` A"
    then obtain r where r: "r \<in> A" "Some k = map_option f (col r)"
      by (rule imageE)
    then obtain d where "col r = Some d" "k = f d"
      by (cases "col r") auto
    with r(1) show "\<exists>r \<in> A. \<exists>d. col r = Some d \<and> k = f d"
      by blast
  next
    assume "\<exists>r \<in> A. \<exists>d. col r = Some d \<and> k = f d"
    then obtain r d where "r \<in> A" "col r = Some d" "k = f d"
      by blast
    then have "r \<in> A" "Some k = map_option f (col r)"
      by simp_all
    then show "Some k \<in> (\<lambda>r. map_option f (col r)) ` A"
      by (rule_tac image_eqI [where x = r])
  qed
  also have "\<dots> \<longleftrightarrow> k \<in> f ` {d. Some d \<in> col ` A}"
  proof
    assume "\<exists>r \<in> A. \<exists>d. col r = Some d \<and> k = f d"
    then obtain r d where "r \<in> A" "col r = Some d" "k = f d"
      by blast
    then have "Some d \<in> col ` A" "k = f d"
      by (auto simp: image_iff intro: bexI [where x = r])
    then show "k \<in> f ` {d. Some d \<in> col ` A}"
      by blast
  next
    assume "k \<in> f ` {d. Some d \<in> col ` A}"
    then obtain d where d: "Some d \<in> col ` A" "k = f d"
      by blast
    from d(1) obtain r where "r \<in> A" "Some d = col r"
      by (rule imageE)
    with d(2) have "r \<in> A" "col r = Some d \<and> k = f d"
      by simp_all
    then show "\<exists>r \<in> A. \<exists>d. col r = Some d \<and> k = f d"
      by blast
  qed
  finally show "k \<in> {k. Some k \<in> (\<lambda>r. map_option f (col r)) ` A} \<longleftrightarrow> k \<in> f ` {d. Some d \<in> col ` A}"
    by simp
qed

lemma enriched_keys:
  "{k. Some k \<in> Condition ` set (df_of ps hs ts)} = {k. Some k \<in> Condition ` set (merge_tables ps hs ts)}"
  "{k. Some k \<in> Department ` set (df_of ps hs ts)} = {k. Some k \<in> Department ` set (merge_tables ps hs ts)}"
  "{k. Some k \<in> Outcome ` set (df_of ps hs ts)} = {k. Some k \<in> Outcome ` set (merge_tables ps hs ts)}"
  "{k. Some k \<in> Treatment_Type ` set (df_of ps hs ts)} = {k. Some k \<in> Treatment_Type ` set (merge_tables ps hs ts)}"
  "{k. Some k \<in> Admission_Month ` set (df_of ps hs ts)} =
     month ` {d. Some d \<in> Admission_Date ` set (merge_tables ps hs ts)}"
  "{k. Some k \<in> Discharge_Month ` set (df_of ps hs ts)} =
     month ` {d. Some d \<in> Discharge_Date ` set (merge_tables ps hs ts)}"
proof -
  define M where "M = merge_tables ps hs ts"
  have c: "Condition ` set (map enrich_row (fillna_ffill M)) = Condition ` set (fillna_ffill M)"
    and d: "Department ` set (map enrich_row (fillna_ffill M)) = Department ` set (fillna_ffill M)"
    and o: "Outcome ` set (map enrich_row (fillna_ffill M)) = Outcome ` set (fillna_ffill M)"
    and t: "Treatment_Type ` set (map enrich_row (fillna_ffill M)) = Treatment_Type ` set (fillna_ffill M)"
    and a: "Admission_Month ` set (map enrich_row (fillna_ffill M)) =
            (\<lambda>r. map_option month (Admission_Date r)) ` set (fillna_ffill M)"
    and e: "Discharge_Month ` set (map enrich_row (fillna_ffill M)) =
            (\<lambda>r. map_option month (Discharge_Date r)) ` set (fillna_ffill M)"
    by (simp_all add: image_image enrich_row_def)
  show "{k. Some k \<in> Condition ` set (df_of ps hs ts)} = {k. Some k \<in> Condition ` set (merge_tables ps hs ts)}"
    unfolding df_of_def M_def [symmetric] c
    by (rule fillna_ffill_values) (simp_all add: fill_row_def all_missing_def)
  show "{k. Some k \<in> Department ` set (df_of ps hs ts)} = {k. Some k \<in> Department ` set (merge_tables ps hs ts)}"
    unfolding df_of_def M_def [symmetric] d
    by (rule fillna_ffill_values) (simp_all add: fill_row_def all_missing_def)
  show "{k. Some k \<in> Outcome ` set (df_of ps hs ts)} = {k. Some k \<in> Outcome ` set (merge_tables ps hs ts)}"
    unfolding df_of_def M_def [symmetric] o
    by (rule fillna_ffill_values) (simp_all add: fill_row_def all_missing_def)
  show "{k. Some k \<in> Treatment_Type ` set (df_of ps hs ts)} = {k. Some k \<in> Treatment_Type ` set (merge_tables ps hs ts)}"
    unfolding df_of_def M_def [symmetric] t
    by (rule fillna_ffill_values) (simp_all add: fill_row_def all_missing_def)
  have "{d. Some d \<in> Admission_Date ` set (fillna_ffill M)} = {d. Some d \<in> Admission_Date ` set M}"
    by (rule fillna_ffill_values) (simp_all add: fill_row_def all_missing_def)
  then show "{k. Some k \<in> Admission_Month ` set (df_of ps hs ts)} =
     month ` {d. Some d \<in> Admission_Date ` set (merge_tables ps hs ts)}"
    unfolding df_of_def M_def [symmetric] a month_keys by simp
  have "{d. Some d \<in> Discharge_Date ` set (fillna_ffill M)} = {d. Some d \<in> Discharge_Date ` set M}"
    by (rule fillna_ffill_values) (simp_all add: fill_row_def all_missing_def)
  then show "{k. Some k \<in> Discharge_Month ` set (df_of ps hs ts)} =
     month ` {d. Some d \<in> Discharge_Date ` set (merge_tables ps hs ts)}"
    unfolding df_of_def M_def [symmetric] e month_keys by simp
qed

lemma aggregate_keys_input_order:
  assumes "set ps' = set ps" "set hs' = set hs" "set ts' = set ts"
  shows "map fst (admission_trend (df_of ps' hs' ts')) = map fst (admission_trend (df_of ps hs ts))"
    and "map fst (discharge_trend (df_of ps' hs' ts')) = map fst (discharge_trend (df_of ps hs ts))"
    and "map fst (avg_stay_condition (df_of ps' hs' ts')) = map fst (avg_stay_condition (df_of ps hs ts))"
    and "map fst (avg_stay_department (df_of ps' hs' ts')) = map fst (avg_stay_department (df_of ps hs ts))"
    and "map fst (readmission_by_condition (df_of ps' hs' ts')) = map fst (readmission_by_condition (df_of ps hs ts))"
    and "map fst (outcome_segment (df_of ps' hs' ts')) = map fst (outcome_segment (df_of ps hs ts))"
    and "map fst (effectiveness_summary (df_of ps' hs' ts')) = map fst (effectiveness_summary (df_of ps hs ts))"
  unfolding admission_trend_def discharge_trend_def avg_stay_condition_def
    avg_stay_department_def readmission_by_condition_def outcome_segment_def
    effectiveness_summary_def group_count_keys group_mean_keys enriched_keys
    set_merge_tables_cong [OF assms]
  by (rule refl)+


lemma group_keys_sorted:
  "sorted (map fst (group_count key col rows))" "distinct (map fst (group_count key col rows))"
  "sorted (map fst (group_mean key col' rows))" "distinct (map fst (group_mean key col' rows))"
  using keys_sorted [OF group_count_keys, of key col rows]
    keys_sorted [OF group_mean_keys, of key col' rows]
  by simp_all

text \<open>
  Claim C10.  In each grouped aggregate the keys are in ascending order (numbers by value,
  texts by code point), each once.  They do not depend on the order of the rows: a table with the same rows in another order gives the
  same keys in the same order, and so do patient, hospital and treatment tables with the
  same rows in another order (forward fill copies values and neither adds nor removes one).
\<close>

theorem aggregate_keys_sorted:
  "sorted (map fst (admission_trend df)) \<and> distinct (map fst (admission_trend df)) \<and>
   sorted (map fst (discharge_trend df)) \<and> distinct (map fst (discharge_trend df)) \<and>
   sorted (map fst (avg_stay_condition df)) \<and> distinct (map fst (avg_stay_condition df)) \<and>
   sorted (map fst (avg_stay_department df)) \<and> distinct (map fst (avg_stay_department df)) \<and>
   sorted (map fst (readmission_by_condition df)) \<and> distinct (map fst (readmission_by_condition df)) \<and>
   sorted (map fst (outcome_segment df)) \<and> distinct (map fst (outcome_segment df)) \<and>
   sorted (map fst (effectiveness_summary df)) \<and> distinct (map fst (effectiveness_summary df)) \<and>
   (mset df' = mset df \<longrightarrow>
      map fst (admission_trend df') = map fst (admission_trend df) \<and>
      map fst (discharge_trend df') = map fst (discharge_trend df) \<and>
      map fst (avg_stay_condition df') = map fst (avg_stay_condition df) \<and>
      map fst (avg_stay_department df') = map fst (avg_stay_department df) \<and>
      map fst (readmission_by_condition df') = map fst (readmission_by_condition df) \<and>
      map fst (outcome_segment df') = map fst (outcome_segment df) \<and>
      map fst (effectiveness_summary df') = map fst (effectiveness_summary df)) \<and>
   (mset ps' = mset ps \<and> mset hs' = mset hs \<and> mset ts' = mset ts \<longrightarrow>
      map fst (admission_trend (df_of ps' hs' ts')) = map fst (admission_trend (df_of ps hs ts)) \<and>
      map fst (discharge_trend (df_of ps' hs' ts')) = map fst (discharge_trend (df_of ps hs ts)) \<and>
      map fst (avg_stay_condition (df_of ps' hs' ts')) =
        map fst (avg_stay_condition (df_of ps hs ts)) \<and>
      map fst (avg_stay_department (df_of ps' hs' ts')) =
        map fst (avg_stay_department (df_of ps hs ts)) \<and>
      map fst (readmission_by_condition (df_of ps' hs' ts')) =
        map fst (readmission_by_condition (df_of ps hs ts)) \<and>
      map fst (outcome_segment (df_of ps' hs' ts')) = map fst (outcome_segment (df_of ps hs ts)) \<and>
      map fst (effectiveness_summary (df_of ps' hs' ts')) =
        map fst (effectiveness_summary (df_of ps hs ts)))"
proof -
  have s: "set df' = set df" if "mset df' = mset df"
    using that by (rule mset_eq_setD)
  have a: "sorted (map fst (admission_trend df)) \<and> distinct (map fst (admission_trend df)) \<and>
   sorted (map fst (discharge_trend df)) \<and> distinct (map fst (discharge_trend df)) \<and>
   sorted (map fst (avg_stay_condition df)) \<and> distinct (map fst (avg_stay_condition df)) \<and>
   sorted (map fst (avg_stay_department df)) \<and> distinct (map fst (avg_stay_department df)) \<and>
   sorted (map fst (readmission_by_condition df)) \<and> distinct (map fst (readmission_by_condition df)) \<and>
   sorted (map fst (outcome_segment df)) \<and> distinct (map fst (outcome_segment df)) \<and>
   sorted (map fst (effectiveness_summary df)) \<and> distinct (map fst (effectiveness_summary df))"
    unfolding admission_trend_def discharge_trend_def avg_stay_condition_def
      avg_stay_department_def readmission_by_condition_def outcome_segment_def
      effectiveness_summary_def
    by (intro conjI group_keys_sorted)
  have b: "map fst (admission_trend df') = map fst (admission_trend df) \<and>
      map fst (discharge_trend df') = map fst (discharge_trend df) \<and>
      map fst (avg_stay_condition df') = map fst (avg_stay_condition df) \<and>
      map fst (avg_stay_department df') = map fst (avg_stay_department df) \<and>
      map fst (readmission_by_condition df') = map fst (readmission_by_condition df) \<and>
      map fst (outcome_segment df') = map fst (outcome_segment df) \<and>
      map fst (effectiveness_summary df') = map fst (effectiveness_summary df)"
    if "mset df' = mset df"
    unfolding admission_trend_def discharge_trend_def avg_stay_condition_def
      avg_stay_department_def readmission_by_condition_def outcome_segment_def
      effectiveness_summary_def group_count_keys group_mean_keys s [OF that]
    by (intro conjI refl)
  have c: "map fst (admission_trend (df_of ps' hs' ts')) = map fst (admission_trend (df_of ps hs ts)) \<and>
      map fst (discharge_trend (df_of ps' hs' ts')) = map fst (discharge_trend (df_of ps hs ts)) \<and>
      map fst (avg_stay_condition (df_of ps' hs' ts')) =
        map fst (avg_stay_condition (df_of ps hs ts)) \<and>
      map fst (avg_stay_department (df_of ps' hs' ts')) =
        map fst (avg_stay_department (df_of ps hs ts)) \<and>
      map fst (readmission_by_condition (df_of ps' hs' ts')) =
        map fst (readmission_by_condition (df_of ps hs ts)) \<and>
      map fst (outcome_segment (df_of ps' hs' ts')) = map fst (outcome_segment (df_of ps hs ts)) \<and>
      map fst (effectiveness_summary (df_of ps' hs' ts')) =
        map fst (effectiveness_summary (df_of ps hs ts))"
    if "mset ps' = mset ps \<and> mset hs' = mset hs \<and> mset ts' = mset ts"
  proof -
    from that have "set ps' = set ps" "set hs' = set hs" "set ts' = set ts"
      by (auto dest: mset_eq_setD)
    then show ?thesis
      by (intro conjI aggregate_keys_input_order)
  qed
  from a b c show ?thesis
    by blast
qed

text \<open>
  The two example patients in table order (Flu, then Asthma), with the rows of the table
  reversed, and with the patients loaded in the other order: the keys are Asthma, Flu each
  time.  Two patients with the numeric conditions 10 and 9: the keys are 9, 10.
\<close>

theorem aggregate_keys_sorted_witness:
  "mset (rev two_patients_df) = mset two_patients_df \<and>
   mset [other_patient, example_patient] = mset [example_patient, other_patient] \<and>
   map fst (avg_stay_condition two_patients_df) = [(Str ''Asthma''), (Str ''Flu'')] \<and>
   map fst (avg_stay_condition (rev two_patients_df)) = [(Str ''Asthma''), (Str ''Flu'')] \<and>
   map fst (avg_stay_condition
     (df_of [other_patient, example_patient] [example_hospital] [example_treatment])) =
     [(Str ''Asthma''), (Str ''Flu'')] \<and>
   map fst (avg_stay_condition (df_of [coded_patient 10, coded_patient 9] [coded_hospital] [])) =
     [Num 9, Num 10]"
proof -
  have n: "map fst (avg_stay_condition (df_of [coded_patient 10, coded_patient 9] [coded_hospital] [])) =
     [Num 9, Num 10]"
    by code_simp
  have p: "mset (rev two_patients_df) = mset two_patients_df"
    by simp
  have q: "mset [other_patient, example_patient] = mset [example_patient, other_patient]"
    by simp
  have k: "map fst (avg_stay_condition two_patients_df) = [(Str ''Asthma''), (Str ''Flu'')]"
    by code_simp
  from aggregate_keys_sorted [of two_patients_df "rev two_patients_df"
      "[other_patient, example_patient]" "[example_patient, other_patient]"
      "[example_hospital]" "[example_hospital]" "[example_treatment]" "[example_treatment]"] p q
  have "map fst (avg_stay_condition (rev two_patients_df)) = map fst (avg_stay_condition two_patients_df)"
    and "map fst (avg_stay_condition
       (df_of [other_patient, example_patient] [example_hospital] [example_treatment])) =
     map fst (avg_stay_condition
       (df_of [example_patient, other_patient] [example_hospital] [example_treatment]))"
    by blast+
  with p q k n show ?thesis
    unfolding two_patients_df_def by simp
qed

end
